theory Spec2Isabelle
  imports Main "HOL-Library.Word"
begin

unbundle bit_operations_syntax

section \<open>Synchronous semantics\<close>

text \<open>
  The core (misoc/cores/spi/core.py) is a set of migen modules in one clock domain.
  Every module is embedded as a record of its registers, its combinatorial signals as
  functions of the registers and the inputs of the current cycle, and its \<open>sync\<close>
  statements as a function from the current registers to the registers after the tick.
  The right-hand sides of all \<open>sync\<close> statements read the values before the tick; where two
  statements assign the same register, the later one in the statement list wins. A
  module's own statements precede those of its submodules, so a submodule's assignment
  overrides its parent's. \<open>CEInserter\<close> wraps all \<open>sync\<close> statements of a module in
  \<open>If(ce, ...)\<close>. Widths are those \<open>SPIMaster\<close> instantiates: data 32, clock 8, bits 6.
\<close>

definition assign_bit :: "nat \<Rightarrow> bool \<Rightarrow> 32 word \<Rightarrow> 32 word" where
  "assign_bit n b w = (if b then set_bit n w else unset_bit n w)"

section \<open>SPIClockGen\<close>

record SPIClockGen =
  cnt :: "8 word"
  bias :: bool
  clk :: bool

definition cg_zero :: "SPIClockGen \<Rightarrow> bool" where
  "cg_zero g = (cnt g = 0)"

definition cg_edge :: "SPIClockGen \<Rightarrow> bool" where
  "cg_edge g = (cg_zero g \<and> \<not> bias g)"

text \<open>\<open>load\<close> and \<open>bias_in\<close> are the module's inputs \<open>self.load\<close> and \<open>self.bias\<close>; the
  record field \<open>bias\<close> is the local register of that name.\<close>

definition SPIClockGen_sync :: "bool \<Rightarrow> 8 word \<Rightarrow> bool \<Rightarrow> SPIClockGen \<Rightarrow> SPIClockGen" where
  "SPIClockGen_sync ce load bias_in g =
     (if \<not> ce then g
      else
        let g1 = (if cg_zero g then g\<lparr>bias := False\<rparr> else g\<lparr>cnt := cnt g - 1\<rparr>)
        in if cg_edge g
           then g1\<lparr>cnt := drop_bit 1 load,
                   bias := (bit load 0 \<and> (clk g \<noteq> bias_in)),
                   clk := \<not> clk g\<rparr>
           else g1)"

section \<open>SPIRegister\<close>

record SPIRegister =
  data :: "32 word"

definition reg_o :: "bool \<Rightarrow> SPIRegister \<Rightarrow> bool" where
  "reg_o lsb r = (if lsb then bit (data r) 0 else bit (data r) 31)"

text \<open>\<open>cur\<close> is the register before the tick, \<open>nxt\<close> the value earlier statements of the
  tick have already assigned (the parent's load at \<open>start\<close>, else \<open>cur\<close>). A slice
  assignment replaces only the bits of the slice.\<close>

definition SPIRegister_sync ::
  "bool \<Rightarrow> bool \<Rightarrow> bool \<Rightarrow> bool \<Rightarrow> bool \<Rightarrow> 32 word \<Rightarrow> 32 word \<Rightarrow> 32 word" where
  "SPIRegister_sync ce lsb shift sample i cur nxt =
     (if \<not> ce then nxt
      else
        let n1 = (if shift
                  then (if lsb then drop_bit 1 cur OR (nxt AND 0x80000000)
                        else push_bit 1 cur OR (nxt AND 1))
                  else nxt)
        in if sample
           then (if lsb then assign_bit 31 i n1 else assign_bit 0 i n1)
           else n1)"

section \<open>SPIBitCounter\<close>

record SPIBitCounter =
  n_read :: "6 word"
  n_write :: "6 word"

definition bits_write :: "SPIBitCounter \<Rightarrow> bool" where
  "bits_write b = (n_write b \<noteq> 0)"

definition bits_read :: "SPIBitCounter \<Rightarrow> bool" where
  "bits_read b = (n_read b \<noteq> 0)"

definition bits_done :: "SPIBitCounter \<Rightarrow> bool" where
  "bits_done b = (\<not> (bits_write b \<or> bits_read b))"

definition SPIBitCounter_sync :: "bool \<Rightarrow> SPIBitCounter \<Rightarrow> SPIBitCounter \<Rightarrow> SPIBitCounter" where
  "SPIBitCounter_sync ce cur nxt =
     (if \<not> ce then nxt
      else if bits_write cur then nxt\<lparr>n_write := n_write cur - 1\<rparr>
      else if bits_read cur then nxt\<lparr>n_read := n_read cur - 1\<rparr>
      else nxt)"

section \<open>SPIMachine\<close>

datatype fsm_state = IDLE | SETUP | HOLD | WAIT

record SPIMachine =
  cg :: SPIClockGen
  reg :: SPIRegister
  bits :: SPIBitCounter
  fsm :: fsm_state
  write0 :: bool

definition fsm_next :: "bool \<Rightarrow> bool \<Rightarrow> bool \<Rightarrow> fsm_state \<Rightarrow> fsm_state" where
  "fsm_next start clk_phase done st =
     (case st of
        IDLE \<Rightarrow> if start then (if clk_phase then WAIT else SETUP) else IDLE
      | SETUP \<Rightarrow> HOLD
      | HOLD \<Rightarrow> if done \<and> \<not> start then (if clk_phase then IDLE else WAIT) else SETUP
      | WAIT \<Rightarrow> if done then IDLE else SETUP)"

definition reg_sample :: "fsm_state \<Rightarrow> bool" where
  "reg_sample st = (st = SETUP)"

definition reg_shift :: "bool \<Rightarrow> bool \<Rightarrow> fsm_state \<Rightarrow> bool" where
  "reg_shift start done st = (st = HOLD \<and> \<not> (done \<and> \<not> start) \<and> \<not> start)"

definition spi_cs :: "SPIMachine \<Rightarrow> bool" where
  "spi_cs m = (fsm m \<noteq> IDLE)"

definition spi_done :: "SPIMachine \<Rightarrow> bool" where
  "spi_done m = (cg_edge (cg m) \<and> bits_done (bits m) \<and> fsm m = HOLD)"

definition spi_oe :: "SPIMachine \<Rightarrow> bool" where
  "spi_oe m = (write0 m \<or> bits_write (bits m))"

definition cg_load :: "8 word \<Rightarrow> 8 word \<Rightarrow> SPIMachine \<Rightarrow> 8 word" where
  "cg_load div_write div_read m =
     (if bits_write (bits m) \<or> \<not> bits_read (bits m) then div_write else div_read)"

definition cg_ce :: "bool \<Rightarrow> SPIMachine \<Rightarrow> bool" where
  "cg_ce start m = (start \<or> spi_cs m \<or> \<not> cg_edge (cg m))"

text \<open>\<open>nxt_bits\<close> and \<open>nxt_data\<close> carry what the statements of \<open>SPIMaster\<close> (which come first)
  have assigned to \<open>spi.bits\<close> and \<open>spi.reg.data\<close> in this tick.\<close>

definition SPIMachine_sync ::
  "8 word \<Rightarrow> 8 word \<Rightarrow> bool \<Rightarrow> bool \<Rightarrow> bool \<Rightarrow> bool \<Rightarrow> SPIBitCounter \<Rightarrow> 32 word \<Rightarrow>
   SPIMachine \<Rightarrow> SPIMachine" where
  "SPIMachine_sync div_write div_read clk_phase lsb i start nxt_bits nxt_data m =
     (let edge = cg_edge (cg m);
          sample = reg_sample (fsm m);
          shift = reg_shift start (bits_done (bits m)) (fsm m)
      in \<lparr>cg = SPIClockGen_sync (cg_ce start m) (cg_load div_write div_read m) clk_phase (cg m),
          reg = \<lparr>data = SPIRegister_sync edge lsb shift sample i (data (reg m)) nxt_data\<rparr>,
          bits = SPIBitCounter_sync (edge \<and> sample) (bits m) nxt_bits,
          fsm = (if edge then fsm_next start clk_phase (bits_done (bits m)) (fsm m) else fsm m),
          write0 = (if edge \<and> shift then bits_write (bits m) else write0 m)\<rparr>)"

section \<open>SPIMaster\<close>

text \<open>\<open>Record.raw_bits()\<close> concatenates the fields with the first field in the least
  significant bits. \<open>config\<close> and \<open>xfer\<close> are kept as their 32 raw bits.\<close>

definition config_offline :: "32 word \<Rightarrow> bool" where "config_offline c = bit c 0"
definition config_active :: "32 word \<Rightarrow> bool" where "config_active c = bit c 1"
definition config_pending :: "32 word \<Rightarrow> bool" where "config_pending c = bit c 2"
definition config_clk_polarity :: "32 word \<Rightarrow> bool" where "config_clk_polarity c = bit c 4"
definition config_clk_phase :: "32 word \<Rightarrow> bool" where "config_clk_phase c = bit c 5"
definition config_lsb_first :: "32 word \<Rightarrow> bool" where "config_lsb_first c = bit c 6"
definition config_half_duplex :: "32 word \<Rightarrow> bool" where "config_half_duplex c = bit c 7"
definition config_div_write :: "32 word \<Rightarrow> 8 word" where "config_div_write c = ucast (drop_bit 16 c)"
definition config_div_read :: "32 word \<Rightarrow> 8 word" where "config_div_read c = ucast (drop_bit 24 c)"

definition xfer_cs :: "32 word \<Rightarrow> 16 word" where "xfer_cs x = ucast x"
definition xfer_write_length :: "32 word \<Rightarrow> 6 word" where "xfer_write_length x = ucast (drop_bit 16 x)"
definition xfer_read_length :: "32 word \<Rightarrow> 6 word" where "xfer_read_length x = ucast (drop_bit 24 x)"

record SPIMaster =
  spi :: SPIMachine
  config :: "32 word"
  xfer :: "32 word"
  pending :: bool
  cs :: "16 word"
  data_read :: "32 word"
  data_write :: "32 word"
  ack :: bool

text \<open>The inputs of one cycle: the wishbone master's signals and the levels read on the
  \<open>miso\<close> pad and on the \<open>mosi\<close> tristate's input.\<close>

record wb_in =
  cyc :: bool
  stb :: bool
  we :: bool
  adr :: "30 word"
  dat_w :: "32 word"
  miso :: bool
  mosi_i :: bool

definition spi_start :: "SPIMaster \<Rightarrow> bool" where
  "spi_start s = (pending s \<and> (\<not> spi_cs (spi s) \<or> spi_done (spi s)))"

definition reg_i :: "wb_in \<Rightarrow> SPIMaster \<Rightarrow> bool" where
  "reg_i inp s = (if config_half_duplex (config s) then mosi_i inp else miso inp)"

text \<open>An \<open>Array\<close> of three signals indexed by \<open>wbus.adr\<close>: migen lowers the index to a
  case statement whose default is the last element.\<close>

definition wbus_dat_r :: "wb_in \<Rightarrow> SPIMaster \<Rightarrow> 32 word" where
  "wbus_dat_r inp s =
     (if adr inp = 0 then data_read s else if adr inp = 1 then xfer s else config s)"



definition mosi_t_oe :: "SPIMaster \<Rightarrow> bool" where
  "mosi_t_oe s =
     (\<not> config_offline (config s) \<and> spi_cs (spi s)
        \<and> (spi_oe (spi s) \<or> \<not> config_half_duplex (config s)))"

definition mosi_t_o :: "SPIMaster \<Rightarrow> bool" where
  "mosi_t_o s = reg_o (config_lsb_first (config s)) (reg (spi s))"

definition SPIMaster_sync :: "wb_in \<Rightarrow> SPIMaster \<Rightarrow> SPIMaster" where
  "SPIMaster_sync inp s =
     (let m = spi s;
          c = config s;
          done = spi_done m;
          start = spi_start s;
          wr = (ack s \<and> we inp);
          nxt_bits = (if start
                      then \<lparr>n_read = xfer_read_length (xfer s),
                            n_write = xfer_write_length (xfer s)\<rparr>
                      else bits m);
          nxt_data = (if start then data_write s else data (reg m));
          config1 = (if wr \<and> adr inp \<noteq> 0 \<and> adr inp \<noteq> 1 then dat_w inp else c)
      in \<lparr>spi = SPIMachine_sync (config_div_write c) (config_div_read c) (config_clk_phase c)
                   (config_lsb_first c) (reg_i inp s) start nxt_bits nxt_data m,
          config = assign_bit 2 (pending s) (assign_bit 1 (spi_cs m) config1),
          xfer = (if wr \<and> adr inp = 1 then dat_w inp else xfer s),
          pending = (if wr \<and> adr inp = 0 then True else if start then False else pending s),
          cs = (if start then xfer_cs (xfer s) else cs s),
          data_read = (if done then data (reg m) else data_read s),
          data_write = (if wr \<and> adr inp = 0 then dat_w inp else data_write s),
          ack = (if ack s then False
                 else cyc inp \<and> stb inp
                        \<and> (\<not> we inp \<or> adr inp \<noteq> 0 \<or> \<not> pending s \<or> done))\<rparr>)"

text \<open>The reset values: \<open>clk\<close> and \<open>config.offline\<close> reset to 1, the FSM to \<open>IDLE\<close>,
  everything else to 0.\<close>

definition SPIMaster_reset :: SPIMaster where
  "SPIMaster_reset =
     \<lparr>spi = \<lparr>cg = \<lparr>cnt = 0, bias = False, clk = True\<rparr>,
             reg = \<lparr>data = 0\<rparr>,
             bits = \<lparr>n_read = 0, n_write = 0\<rparr>,
             fsm = IDLE,
             write0 = False\<rparr>,
      config = 1, xfer = 0, pending = False, cs = 0,
      data_read = 0, data_write = 0, ack = False\<rparr>"

section \<open>Executions\<close>

text \<open>An execution applies one tick per cycle; \<open>f k\<close> are the inputs of cycle \<open>k\<close>.\<close>

fun SPIMaster_run :: "(nat \<Rightarrow> wb_in) \<Rightarrow> nat \<Rightarrow> SPIMaster \<Rightarrow> SPIMaster" where
  "SPIMaster_run f 0 s = s"
| "SPIMaster_run f (Suc n) s = SPIMaster_sync (f n) (SPIMaster_run f n s)"

text \<open>The clock generator alone, enabled in every cycle, with constant \<open>load\<close> and
  \<open>bias\<close> inputs.\<close>

definition cg_run :: "nat \<Rightarrow> 8 word \<Rightarrow> bool \<Rightarrow> SPIClockGen \<Rightarrow> SPIClockGen" where
  "cg_run n load bias_in g = (SPIClockGen_sync True load bias_in ^^ n) g"

text \<open>A bus that requests nothing.\<close>

definition wb_idle :: wb_in where
  "wb_idle = \<lparr>cyc = False, stb = False, we = False, adr = 0, dat_w = 0,
              miso = False, mosi_i = False\<rparr>"

text \<open>The test bench (misoc/cores/spi/test.py) replaces every tristate by
  \<open>_TestTristate\<close>, whose input is its output, and ties \<open>pads.miso\<close> to \<open>pads.mosi\<close>:
  both serial inputs read the level \<open>mosi_t.o\<close> of the same cycle.\<close>

definition loopback_in :: "wb_in \<Rightarrow> SPIMaster \<Rightarrow> wb_in" where
  "loopback_in inp s = inp\<lparr>miso := mosi_t_o s, mosi_i := mosi_t_o s\<rparr>"

fun loopback_run :: "(nat \<Rightarrow> wb_in) \<Rightarrow> nat \<Rightarrow> SPIMaster \<Rightarrow> SPIMaster" where
  "loopback_run f 0 s = s"
| "loopback_run f (Suc n) s =
     SPIMaster_sync (loopback_in (f n) (loopback_run f n s)) (loopback_run f n s)"


section \<open>The reference model of the test bench\<close>

text \<open>\<open>_simulate_shifts\<close> and its helpers of misoc/cores/spi/test.py, on Python's
  unbounded integers. A shift by a negative count raises \<open>ValueError\<close>; every call path
  shifts by \<open>width - 1\<close> first, so the check is made once.\<close>

datatype py_error = ValueError

definition sampl :: "int \<Rightarrow> int \<Rightarrow> int" where
  "sampl val width =
     (if (drop_bit (nat (width - 1)) val XOR (val AND 1)) \<noteq> 0 then val XOR 1 else val)"

definition sampr :: "int \<Rightarrow> int \<Rightarrow> int" where
  "sampr val width =
     (if (drop_bit (nat (width - 1)) val XOR (val AND 1)) \<noteq> 0
      then val XOR push_bit (nat (width - 1)) 1 else val)"

definition rol :: "int \<Rightarrow> int \<Rightarrow> int" where
  "rol val width =
     (let mask = push_bit (nat width) 1 - 1;
          msbs = push_bit 1 val AND mask;
          lsbs = drop_bit (nat (width - 1)) (val AND mask)
      in msbs OR lsbs)"

definition ror :: "int \<Rightarrow> int \<Rightarrow> int" where
  "ror val width =
     (let mask = push_bit (nat width) 1 - 1;
          lsbs = drop_bit 1 (val AND mask);
          msbs = push_bit (nat (width - 1)) val AND mask
      in msbs OR lsbs)"

definition simulate_shifts :: "int \<Rightarrow> int \<Rightarrow> bool \<Rightarrow> int \<Rightarrow> py_error + int" where
  "simulate_shifts write_val num_samples lsb width =
     (if width < 1 then Inl ValueError
      else if lsb
      then Inr (sampr (((\<lambda>v. ror (sampr v width) width) ^^ nat (num_samples - 1)) write_val) width)
      else Inr (sampl (((\<lambda>v. rol (sampl v width) width) ^^ nat (num_samples - 1)) write_val) width))"

section \<open>Concrete states\<close>

text \<open>A state at a \<open>done\<close> pulse (\<open>HOLD\<close>, clock generator on an edge, bit counter at zero)
  with a second transfer of two read bits buffered.\<close>

definition st_done :: SPIMaster where
  "st_done = SPIMaster_reset\<lparr>spi := (spi SPIMaster_reset)\<lparr>fsm := HOLD\<rparr>, pending := True,
       xfer := 0x02000003, data_write := 5\<rparr>"

text \<open>A bus write cycle of \<open>v\<close> to word address \<open>a\<close>.\<close>

definition wb_write :: "30 word \<Rightarrow> 32 word \<Rightarrow> wb_in" where
  "wb_write a v = wb_idle\<lparr>cyc := True, stb := True, we := True, adr := a, dat_w := v\<rparr>"

text \<open>A transfer running (\<open>SETUP\<close>) with a second one buffered.\<close>

definition st_busy :: SPIMaster where
  "st_busy = st_done\<lparr>spi := (spi st_done)\<lparr>fsm := SETUP\<rparr>\<rparr>"

section \<open>Derived quantities\<close>

text \<open>The length in ticks of the half period that starts with an edge in state \<open>g\<close>:
  \<open>floor(div/2) + 1\<close>, and one more when the divisor is odd and the clock level differs
  from the \<open>bias\<close> input.\<close>

definition half_period :: "8 word \<Rightarrow> bool \<Rightarrow> SPIClockGen \<Rightarrow> nat" where
  "half_period load p g = unat load div 2 + 1 + (if odd (unat load) \<and> clk g \<noteq> p then 1 else 0)"

text \<open>What a tick without a clock-generator edge and without a bus write leaves unchanged
  while chip-select is asserted.\<close>

definition frame :: "SPIMaster \<Rightarrow> SPIMaster \<Rightarrow> bool" where
  "frame s' s =
     (fsm (spi s') = fsm (spi s) \<and> reg (spi s') = reg (spi s) \<and> bits (spi s') = bits (spi s)
      \<and> write0 (spi s') = write0 (spi s) \<and> clk (cg (spi s')) = clk (cg (spi s))
      \<and> pending s' = pending s \<and> xfer s' = xfer s \<and> cs s' = cs s
      \<and> data_read s' = data_read s \<and> data_write s' = data_write s
      \<and> config_clk_phase (config s') = config_clk_phase (config s)
      \<and> config_clk_polarity (config s') = config_clk_polarity (config s)
      \<and> config_lsb_first (config s') = config_lsb_first (config s)
      \<and> config_half_duplex (config s') = config_half_duplex (config s)
      \<and> config_div_write (config s') = config_div_write (config s)
      \<and> config_div_read (config s') = config_div_read (config s))"

text \<open>The ticks the clock generator still needs to reach an edge.\<close>

definition cg_measure :: "SPIMaster \<Rightarrow> nat" where
  "cg_measure s = unat (cnt (cg (spi s))) + (if bias (cg (spi s)) then 1 else 0)"

text \<open>Inputs that read the serial output of the same cycle on both serial inputs.\<close>

definition looped :: "wb_in \<Rightarrow> SPIMaster \<Rightarrow> bool" where
  "looped inp s = (miso inp = mosi_t_o s \<and> mosi_i inp = mosi_t_o s)"

text \<open>The shift register after a sampling edge in loopback, after a shifting edge, and
  after a shifting edge followed by a sampling edge.\<close>

definition hw_sample :: "bool \<Rightarrow> 32 word \<Rightarrow> 32 word" where
  "hw_sample lsb d = SPIRegister_sync True lsb False True (reg_o lsb \<lparr>data = d\<rparr>) d d"

definition hw_shift :: "bool \<Rightarrow> 32 word \<Rightarrow> 32 word" where
  "hw_shift lsb d = SPIRegister_sync True lsb True False False d d"

definition hw_step :: "bool \<Rightarrow> 32 word \<Rightarrow> 32 word" where
  "hw_step lsb d = hw_sample lsb (hw_shift lsb d)"

text \<open>The bits a transfer still has to clock.\<close>

definition bits_total :: "SPIBitCounter \<Rightarrow> nat" where
  "bits_total b = unat (n_write b) + unat (n_read b)"

text \<open>The scenario of the test bench: \<open>clk_phase\<close> and \<open>half_duplex\<close> set, \<open>div_write\<close> 3,
  \<open>div_read\<close> 5, chip-select 1, four write bits, data \<open>0x90000000\<close>, written and pending.\<close>

definition st_xfer :: SPIMaster where
  "st_xfer = SPIMaster_reset\<lparr>config := 0x050300A0, xfer := 0x00040001,
       data_write := 0x90000000, pending := True\<rparr>"

text \<open>The clock generator resting on an edge with the clock high.\<close>

definition cg_rest :: SPIClockGen where
  "cg_rest = \<lparr>cnt = 0, bias = False, clk = True\<rparr>"

text \<open>What holds of a zero-length transfer with \<open>clk_phase\<close> set: the sequencer is in
  \<open>IDLE\<close>, or in \<open>WAIT\<close> with the bit counter at zero.\<close>

definition zero_inv :: "SPIMaster \<Rightarrow> bool" where
  "zero_inv s =
     (config_clk_phase (config s)
      \<and> xfer_write_length (xfer s) = 0 \<and> xfer_read_length (xfer s) = 0
      \<and> (fsm (spi s) = IDLE \<or> (fsm (spi s) = WAIT \<and> bits_done (bits (spi s)))))"

text \<open>A zero-length transfer with \<open>clk_phase\<close> set, chip-select 1, written and pending.\<close>

definition st_zero :: SPIMaster where
  "st_zero = SPIMaster_reset\<lparr>config := 0x00000020, xfer := 0x00000001,
       data_write := 0xDEADBEEF, pending := True\<rparr>"

text \<open>An execution with a bus that requests nothing.\<close>

definition idle_run :: "nat \<Rightarrow> SPIMaster \<Rightarrow> SPIMaster" where
  "idle_run n s = SPIMaster_run (\<lambda>_. wb_idle) n s"






section \<open>Bits of the shift register\<close>

lemma bit_assign_bit: "bit (assign_bit n b w) k = (if k = n then b \<and> n < 32 else bit w k)"
  by (auto simp: assign_bit_def bit_set_bit_iff bit_unset_bit_iff dest: bit_imp_le_length)

lemma bit_push1: "bit (push_bit 1 (d::32 word)) n = (0 < n \<and> n < 32 \<and> bit d (n - 1))"
  by (simp only: bit_push_bit_iff possible_bit_word) (auto simp: Suc_le_eq)

lemma bit_drop1: "bit (drop_bit 1 (d::32 word)) n = bit d (n + 1)"
  by (simp only: bit_drop_bit_eq o_apply add.commute)

lemma bit_msb_mask: "bit (0x80000000 :: 32 word) n = (n = 31)"
proof -
  have "(0x80000000 :: 32 word) = push_bit 31 1" by simp
  then show ?thesis by (simp only: bit_push_bit_iff bit_1_iff) (auto simp: possible_bit_word)
qed

lemma bit_shift_l:
  "bit (SPIRegister_sync True False True False j d e) n
     = (if n = 0 then bit e 0 else n < 32 \<and> bit d (n - 1))"
  unfolding SPIRegister_sync_def Let_def
  by (simp only: bit_or_iff bit_and_iff bit_push1 bit_1_iff if_True if_False not_True_eq_False) auto

lemma bit_shift_r:
  "bit (SPIRegister_sync True True True False j d e) n
     = (if n = 31 then bit e 31 else bit d (n + 1))"
  unfolding SPIRegister_sync_def Let_def
  by (simp only: bit_or_iff bit_and_iff bit_drop1 bit_msb_mask if_True if_False not_True_eq_False)
     (auto dest: bit_imp_le_length)

lemma bit_sample:
  "bit (SPIRegister_sync True lsb False True i d e) n
     = (if n = (if lsb then 31 else 0) then i else bit e n)"
  by (simp add: SPIRegister_sync_def bit_assign_bit)

text \<open>
  C6. On an enabled edge with \<open>sample\<close> asserted the register stores the input bit in the
  position the shift vacates: bit 31 when \<open>lsb\<close> is set (the register shifts towards bit 0),
  bit 0 otherwise (it shifts towards bit 31); every other bit keeps its value. After the
  shift of the next enabled edge the sampled bit stands one position further (bit 30,
  respectively bit 1), and the vacated position still holds it.
\<close>

theorem SPIRegister_sample_position:
  "bit (SPIRegister_sync True lsb False True i d d) n
     = (if n = (if lsb then 31 else 0) then i else bit d n)
   \<and> bit (SPIRegister_sync True lsb True False j
            (SPIRegister_sync True lsb False True i d d)
            (SPIRegister_sync True lsb False True i d d)) (if lsb then 30 else 1) = i
   \<and> bit (SPIRegister_sync True lsb True False j
            (SPIRegister_sync True lsb False True i d d)
            (SPIRegister_sync True lsb False True i d d)) (if lsb then 31 else 0) = i"
  by (cases lsb) (simp_all add: bit_sample bit_shift_l bit_shift_r)

theorem SPIRegister_sample_position_witness:
  "bit (SPIRegister_sync True True False True True 5 5) 31
   \<and> bit (SPIRegister_sync True True False True True 5 5) 2
   \<and> bit (SPIRegister_sync True True True False False
            (SPIRegister_sync True True False True True 5 5)
            (SPIRegister_sync True True False True True 5 5)) 30"
proof -
  have b: "bit (5 :: 32 word) 2"
    by code_simp
  show ?thesis
    using SPIRegister_sample_position [of True True 5 31 False]
          SPIRegister_sample_position [of True True 5 2 False] b
    by simp
qed

text \<open>
  C6 as stated fails: sampling a 1 into the cleared register with \<open>lsb\<close> set leaves bit 0
  clear and sets bit 31; with \<open>lsb\<close> clear it sets bit 0 and leaves bit 31 clear.
\<close>

theorem SPIRegister_sample_position_counterexample:
  "\<not> bit (SPIRegister_sync True True False True True 0 0) 0
   \<and> bit (SPIRegister_sync True True False True True 0 0) 31
   \<and> bit (SPIRegister_sync True False False True True 0 0) 0
   \<and> \<not> bit (SPIRegister_sync True False False True True 0 0) 31"
  by (simp add: SPIRegister_sync_def bit_assign_bit)

section \<open>The register file\<close>

text \<open>
  C7. An acknowledged bus write of a 32-bit word to word address 1 stores the word in
  \<open>xfer\<close>; the chip-select mask is bits 15..0 of the word, \<open>write_length\<close> bits 21..16 and
  \<open>read_length\<close> bits 29..24 (bits 23..22 and 31..30 are the reserved gaps).
\<close>

theorem xfer_layout:
  assumes "ack s" and "we inp" and "adr inp = 1"
  shows "xfer (SPIMaster_sync inp s) = dat_w inp
    \<and> bit (xfer_cs (xfer (SPIMaster_sync inp s))) n = (n < 16 \<and> bit (dat_w inp) n)
    \<and> bit (xfer_write_length (xfer (SPIMaster_sync inp s))) n
        = (n < 6 \<and> bit (dat_w inp) (16 + n))
    \<and> bit (xfer_read_length (xfer (SPIMaster_sync inp s))) n
        = (n < 6 \<and> bit (dat_w inp) (24 + n))"
proof -
  have x: "xfer (SPIMaster_sync inp s) = dat_w inp"
    using assms by (simp add: SPIMaster_sync_def Let_def)
  show ?thesis
    unfolding x
    by (auto simp: xfer_cs_def xfer_write_length_def xfer_read_length_def bit_ucast_iff
        bit_drop_bit_eq)
qed

theorem xfer_layout_witness:
  "xfer (SPIMaster_sync (wb_write 1 0x04030005) (SPIMaster_reset\<lparr>ack := True\<rparr>)) = 0x04030005
   \<and> bit (xfer_cs (xfer (SPIMaster_sync (wb_write 1 0x04030005)
                          (SPIMaster_reset\<lparr>ack := True\<rparr>)))) 2
   \<and> \<not> bit (xfer_write_length (xfer (SPIMaster_sync (wb_write 1 0x04030005)
                          (SPIMaster_reset\<lparr>ack := True\<rparr>)))) 2
   \<and> bit (xfer_read_length (xfer (SPIMaster_sync (wb_write 1 0x04030005)
                          (SPIMaster_reset\<lparr>ack := True\<rparr>)))) 2"
proof -
  have h: "ack (SPIMaster_reset\<lparr>ack := True\<rparr>)" "we (wb_write 1 0x04030005)"
    "adr (wb_write 1 0x04030005) = 1"
    by (simp_all add: wb_write_def wb_idle_def)
  have v: "dat_w (wb_write 1 0x04030005) = 0x04030005"
    by (simp add: wb_write_def wb_idle_def)
  have b: "bit (0x04030005 :: 32 word) 2" "\<not> bit (0x04030005 :: 32 word) (16 + 2)"
    "bit (0x04030005 :: 32 word) (24 + 2)"
    by code_simp+
  have l: "(2::nat) < 16" "(2::nat) < 6"
    by simp_all
  from xfer_layout [OF h, of 2] show ?thesis
    unfolding v using b l by blast
qed

text \<open>
  C7 as stated fails: after writing \<open>0x00010000\<close> to address 1 the chip-select mask is 0
  and \<open>write_length\<close> is 1, whereas bits 31..16 of that word are 1 and bits 15..10 are 0.
\<close>

theorem xfer_layout_counterexample:
  "xfer_cs (xfer (SPIMaster_sync (wb_write 1 0x00010000) (SPIMaster_reset\<lparr>ack := True\<rparr>))) = 0
   \<and> xfer_write_length (xfer (SPIMaster_sync (wb_write 1 0x00010000)
                                 (SPIMaster_reset\<lparr>ack := True\<rparr>))) = 1
   \<and> ucast (drop_bit 16 (0x00010000 :: 32 word)) = (1 :: 16 word)
   \<and> ucast (drop_bit 10 (0x00010000 :: 32 word)) AND (0x3F :: 6 word) = 0"
  by code_simp

text \<open>
  C9. Whatever the bus does in a cycle, after the tick the \<open>active\<close> bit of \<open>config\<close> is
  the sequencer's chip-select of that cycle and the \<open>pending\<close> bit is the buffered-transfer
  flag of that cycle: the two assignments come after the bus write in the statement list
  and override it. (The bits are registers, so what the host reads is the live state of
  the previous cycle.)
\<close>

theorem config_status_bits:
  "config_active (config (SPIMaster_sync inp s)) = spi_cs (spi s)
   \<and> config_pending (config (SPIMaster_sync inp s)) = pending s
   \<and> wbus_dat_r (inp\<lparr>adr := 2\<rparr>) s = config s"
  by (simp add: SPIMaster_sync_def Let_def config_active_def config_pending_def bit_assign_bit
      wbus_dat_r_def)

theorem config_status_bits_witness:
  "\<not> config_active (config (SPIMaster_sync (wb_write 2 6) (SPIMaster_reset\<lparr>ack := True\<rparr>)))
   \<and> \<not> config_pending (config (SPIMaster_sync (wb_write 2 6) (SPIMaster_reset\<lparr>ack := True\<rparr>)))
   \<and> config_active (config (SPIMaster_sync (wb_write 2 0) (st_done\<lparr>ack := True\<rparr>)))
   \<and> config_pending (config (SPIMaster_sync (wb_write 2 0) (st_done\<lparr>ack := True\<rparr>)))"
proof -
  have a: "\<not> spi_cs (spi (SPIMaster_reset\<lparr>ack := True\<rparr>))"
    "\<not> pending (SPIMaster_reset\<lparr>ack := True\<rparr>)"
    by code_simp+
  have b: "spi_cs (spi (st_done\<lparr>ack := True\<rparr>))" "pending (st_done\<lparr>ack := True\<rparr>)"
    by code_simp+
  show ?thesis
    using config_status_bits [of "wb_write 2 6" "SPIMaster_reset\<lparr>ack := True\<rparr>"]
          config_status_bits [of "wb_write 2 0" "st_done\<lparr>ack := True\<rparr>"] a b
    by blast
qed

text \<open>
  C10. The value read at address 0 is \<open>data_read\<close>. A tick changes it only when \<open>done\<close>
  is asserted, and then to the shift register's contents; a bus write to address 0
  changes \<open>data_write\<close> and not \<open>data_read\<close>.
\<close>

theorem data_read_frame:
  "data_read (SPIMaster_sync inp s)
     = (if spi_done (spi s) then data (reg (spi s)) else data_read s)
   \<and> data_write (SPIMaster_sync inp s)
     = (if ack s \<and> we inp \<and> adr inp = 0 then dat_w inp else data_write s)
   \<and> wbus_dat_r (inp\<lparr>adr := 0\<rparr>) s = data_read s"
  by (simp add: SPIMaster_sync_def Let_def wbus_dat_r_def)

theorem data_read_frame_witness:
  "data_read (SPIMaster_sync (wb_write 0 7) (SPIMaster_reset\<lparr>ack := True\<rparr>)) = 0
   \<and> data_write (SPIMaster_sync (wb_write 0 7) (SPIMaster_reset\<lparr>ack := True\<rparr>)) = 7
   \<and> data_read (SPIMaster_sync wb_idle
        (st_done\<lparr>spi := (spi st_done)\<lparr>reg := \<lparr>data = 9\<rparr>\<rparr>\<rparr>)) = 9"
proof -
  have a: "\<not> spi_done (spi (SPIMaster_reset\<lparr>ack := True\<rparr>))"
    "ack (SPIMaster_reset\<lparr>ack := True\<rparr>)" "data_read (SPIMaster_reset\<lparr>ack := True\<rparr>) = 0"
    by code_simp+
  have w: "we (wb_write 0 7)" "adr (wb_write 0 7) = 0" "dat_w (wb_write 0 7) = 7"
    by (simp_all add: wb_write_def wb_idle_def)
  have b: "spi_done (spi (st_done\<lparr>spi := (spi st_done)\<lparr>reg := \<lparr>data = 9\<rparr>\<rparr>\<rparr>))"
    "data (reg (spi (st_done\<lparr>spi := (spi st_done)\<lparr>reg := \<lparr>data = 9\<rparr>\<rparr>\<rparr>))) = 9"
    by code_simp+
  show ?thesis
    using data_read_frame [of "wb_write 0 7" "SPIMaster_reset\<lparr>ack := True\<rparr>"]
          data_read_frame [of wb_idle "st_done\<lparr>spi := (spi st_done)\<lparr>reg := \<lparr>data = 9\<rparr>\<rparr>\<rparr>"]
          a w b
    by simp
qed

lemma stall_run:
  assumes "\<not> ack s"
  shows "(\<forall>k<n. we (f k) \<and> adr (f k) = 0
              \<and> pending (SPIMaster_run f k s) \<and> \<not> spi_done (spi (SPIMaster_run f k s)))
    \<Longrightarrow> \<not> ack (SPIMaster_run f n s) \<and> data_write (SPIMaster_run f n s) = data_write s"
proof (induction n)
  case 0
  then show ?case using assms by simp
next
  case (Suc n)
  then have ih: "\<not> ack (SPIMaster_run f n s)" "data_write (SPIMaster_run f n s) = data_write s"
    by simp_all
  have c: "we (f n)" "adr (f n) = 0" "pending (SPIMaster_run f n s)"
    "\<not> spi_done (spi (SPIMaster_run f n s))"
    using Suc.prems by simp_all
  show ?case using ih c by (simp add: SPIMaster_sync_def Let_def)
qed

text \<open>
  C2. A bus write request to address 0 that starts with \<open>ack\<close> low and is held: as long
  as a transfer is pending and \<open>done\<close> is not asserted, every tick leaves \<open>ack\<close> low and
  the write buffer unchanged. The request is acknowledged at a tick exactly when no transfer
  is pending or the running transfer's \<open>done\<close> is asserted in that cycle; in the
  acknowledged cycle the write buffer takes the bus data, \<open>pending\<close> is set and \<open>ack\<close>
  falls.
\<close>

theorem data_write_backpressure:
  assumes "\<not> ack s"
    and "\<forall>k<n. we (f k) \<and> adr (f k) = 0
              \<and> pending (SPIMaster_run f k s) \<and> \<not> spi_done (spi (SPIMaster_run f k s))"
    and "cyc inp" and "stb inp" and "we inp" and "adr inp = 0"
    and "we inp'" and "adr inp' = 0"
  shows "\<not> ack (SPIMaster_run f n s) \<and> data_write (SPIMaster_run f n s) = data_write s
    \<and> ack (SPIMaster_sync inp (SPIMaster_run f n s))
        = (\<not> pending (SPIMaster_run f n s) \<or> spi_done (spi (SPIMaster_run f n s)))
    \<and> (ack (SPIMaster_sync inp (SPIMaster_run f n s)) \<longrightarrow>
          pending (SPIMaster_sync inp' (SPIMaster_sync inp (SPIMaster_run f n s)))
        \<and> data_write (SPIMaster_sync inp' (SPIMaster_sync inp (SPIMaster_run f n s))) = dat_w inp'
        \<and> \<not> ack (SPIMaster_sync inp' (SPIMaster_sync inp (SPIMaster_run f n s))))
    \<and> (\<not> ack (SPIMaster_sync inp (SPIMaster_run f n s)) \<longrightarrow>
          data_write (SPIMaster_sync inp' (SPIMaster_sync inp (SPIMaster_run f n s)))
            = data_write s)"
proof -
  have st: "\<not> ack (SPIMaster_run f n s)" "data_write (SPIMaster_run f n s) = data_write s"
    using stall_run [OF assms(1), of n f] assms(2) by simp_all
  show ?thesis
    using st assms(3-8) by (simp add: SPIMaster_sync_def Let_def)
qed

theorem data_write_backpressure_witness:
  "ack (SPIMaster_sync (wb_write 0 7) SPIMaster_reset)
   \<and> pending (SPIMaster_sync (wb_write 0 7) (SPIMaster_sync (wb_write 0 7) SPIMaster_reset))
   \<and> data_write (SPIMaster_sync (wb_write 0 7) (SPIMaster_sync (wb_write 0 7) SPIMaster_reset)) = 7
   \<and> \<not> ack (SPIMaster_run (\<lambda>_. wb_write 0 7) 1 st_busy)
   \<and> data_write (SPIMaster_run (\<lambda>_. wb_write 0 7) 1 st_busy) = 5
   \<and> ack (SPIMaster_sync (wb_write 0 7) (SPIMaster_run (\<lambda>_. wb_write 0 7) 1 st_busy))"
proof -
  have h: "cyc (wb_write 0 7)" "stb (wb_write 0 7)" "we (wb_write 0 7)" "adr (wb_write 0 7) = 0"
    by (simp_all add: wb_write_def wb_idle_def)
  have v: "dat_w (wb_write 0 7) = 7" by (simp add: wb_write_def wb_idle_def)
  have a: "\<not> ack SPIMaster_reset" "\<not> pending SPIMaster_reset"
    by (simp_all add: SPIMaster_reset_def)
  have n0: "\<forall>k<0. we ((\<lambda>_. wb_write 0 7) k) \<and> adr ((\<lambda>_. wb_write 0 7) k) = 0
      \<and> pending (SPIMaster_run (\<lambda>_. wb_write 0 7) k SPIMaster_reset)
      \<and> \<not> spi_done (spi (SPIMaster_run (\<lambda>_. wb_write 0 7) k SPIMaster_reset))"
    by simp
  have z: "SPIMaster_run (\<lambda>_. wb_write 0 7) 0 SPIMaster_reset = SPIMaster_reset" by simp
  have b: "\<not> ack st_busy" "pending st_busy" "\<not> spi_done (spi st_busy)" "data_write st_busy = 5"
    by code_simp+
  have n1: "\<forall>k<1. we ((\<lambda>_. wb_write 0 7) k) \<and> adr ((\<lambda>_. wb_write 0 7) k) = 0
      \<and> pending (SPIMaster_run (\<lambda>_. wb_write 0 7) k st_busy)
      \<and> \<not> spi_done (spi (SPIMaster_run (\<lambda>_. wb_write 0 7) k st_busy))"
    using h b by simp
  have d: "spi_done (spi (SPIMaster_run (\<lambda>_. wb_write 0 7) 1 st_busy))"
    by code_simp
  from data_write_backpressure [OF a(1) n0 h h(3,4)] a(2) have p1:
    "ack (SPIMaster_sync (wb_write 0 7) SPIMaster_reset)
     \<and> pending (SPIMaster_sync (wb_write 0 7) (SPIMaster_sync (wb_write 0 7) SPIMaster_reset))
     \<and> data_write (SPIMaster_sync (wb_write 0 7) (SPIMaster_sync (wb_write 0 7) SPIMaster_reset)) = 7"
    unfolding z v by blast
  from data_write_backpressure [OF b(1) n1 h h(3,4)] d have p2:
    "\<not> ack (SPIMaster_run (\<lambda>_. wb_write 0 7) 1 st_busy)
     \<and> data_write (SPIMaster_run (\<lambda>_. wb_write 0 7) 1 st_busy) = 5
     \<and> ack (SPIMaster_sync (wb_write 0 7) (SPIMaster_run (\<lambda>_. wb_write 0 7) 1 st_busy))"
    unfolding b(4) by blast
  from p1 p2 show ?thesis by blast
qed

section \<open>Chained transfers\<close>

lemma fsm_sync:
  "fsm (spi (SPIMaster_sync inp s)) =
     (if cg_edge (cg (spi s))
      then fsm_next (spi_start s) (config_clk_phase (config s)) (bits_done (bits (spi s)))
             (fsm (spi s))
      else fsm (spi s))"
  by (simp add: SPIMaster_sync_def SPIMachine_sync_def Let_def)

lemma loop_stays:
  "fsm (spi s) = SETUP \<or> fsm (spi s) = HOLD \<Longrightarrow> \<not> spi_done (spi s) \<Longrightarrow>
   fsm (spi (SPIMaster_sync inp s)) = SETUP \<or> fsm (spi (SPIMaster_sync inp s)) = HOLD"
  by (auto simp: fsm_sync fsm_next_def spi_done_def)

lemma done_pending:
  "spi_done (spi s) \<Longrightarrow> pending s \<Longrightarrow> fsm (spi (SPIMaster_sync inp s)) = SETUP"
  by (auto simp: fsm_sync fsm_next_def spi_done_def spi_start_def)

lemma chain_run:
  assumes "spi_done (spi s)" and "pending s"
  shows "(\<forall>k. 1 \<le> k \<and> k < n \<longrightarrow> \<not> spi_done (spi (SPIMaster_run f k s))) \<Longrightarrow> 1 \<le> n \<Longrightarrow>
    fsm (spi (SPIMaster_run f n s)) = SETUP \<or> fsm (spi (SPIMaster_run f n s)) = HOLD"
proof (induction n)
  case 0
  then show ?case by simp
next
  case (Suc n)
  show ?case
  proof (cases "n = 0")
    case True
    then show ?thesis using assms by (simp add: done_pending)
  next
    case False
    then have "fsm (spi (SPIMaster_run f n s)) = SETUP \<or> fsm (spi (SPIMaster_run f n s)) = HOLD"
      using Suc by simp
    moreover have "\<not> spi_done (spi (SPIMaster_run f n s))" using Suc.prems False by simp
    ultimately show ?thesis by (simp add: loop_stays)
  qed
qed

text \<open>
  C3. When a transfer is pending at the \<open>done\<close> pulse of the active one, \<open>start\<close> is
  asserted, the sequencer goes from \<open>HOLD\<close> to \<open>SETUP\<close> with the buffered lengths and data
  loaded, and chip-select stays asserted in every cycle up to the next \<open>done\<close> pulse, for
  any inputs. When nothing is pending at the \<open>done\<close> pulse the sequencer takes the release
  path (\<open>IDLE\<close> with \<open>clk_phase\<close> set, \<open>WAIT\<close> and then \<open>IDLE\<close> otherwise). Chip-select is
  never released in a cycle where \<open>start\<close> is asserted, and the sequencer leaves the
  \<open>SETUP\<close>/\<open>HOLD\<close> loop only at a \<open>done\<close> pulse with nothing pending.
\<close>

theorem chaining_keeps_cs:
  "(spi_done (spi s) \<and> pending s \<longrightarrow>
      spi_start s
    \<and> fsm (spi (SPIMaster_sync inp s)) = SETUP
    \<and> bits (spi (SPIMaster_sync inp s))
        = \<lparr>n_read = xfer_read_length (xfer s), n_write = xfer_write_length (xfer s)\<rparr>
    \<and> data (reg (spi (SPIMaster_sync inp s))) = data_write s
    \<and> (1 \<le> n \<and> (\<forall>k. 1 \<le> k \<and> k < n \<longrightarrow> \<not> spi_done (spi (SPIMaster_run f k s)))
         \<longrightarrow> spi_cs (spi (SPIMaster_run f n s))))
   \<and> (spi_done (spi s) \<and> \<not> pending s \<longrightarrow>
        fsm (spi (SPIMaster_sync inp s)) = (if config_clk_phase (config s) then IDLE else WAIT))
   \<and> (spi_cs (spi s) \<and> \<not> spi_cs (spi (SPIMaster_sync inp s)) \<longrightarrow> \<not> spi_start s)
   \<and> ((fsm (spi s) = SETUP \<or> fsm (spi s) = HOLD)
        \<and> fsm (spi (SPIMaster_sync inp s)) \<noteq> SETUP \<and> fsm (spi (SPIMaster_sync inp s)) \<noteq> HOLD
        \<longrightarrow> spi_done (spi s) \<and> \<not> pending s)"
proof -
  have a: "spi_start s \<and> fsm (spi (SPIMaster_sync inp s)) = SETUP
    \<and> bits (spi (SPIMaster_sync inp s))
        = \<lparr>n_read = xfer_read_length (xfer s), n_write = xfer_write_length (xfer s)\<rparr>
    \<and> data (reg (spi (SPIMaster_sync inp s))) = data_write s"
    if "spi_done (spi s)" "pending s"
    using that
    by (simp add: SPIMaster_sync_def SPIMachine_sync_def Let_def spi_start_def spi_done_def
        fsm_next_def reg_sample_def reg_shift_def SPIBitCounter_sync_def SPIRegister_sync_def)
  have b: "spi_cs (spi (SPIMaster_run f n s))"
    if "spi_done (spi s)" "pending s" "1 \<le> n"
      "\<forall>k. 1 \<le> k \<and> k < n \<longrightarrow> \<not> spi_done (spi (SPIMaster_run f k s))"
    using chain_run [OF that(1,2,4,3)] by (auto simp: spi_cs_def)
  have c: "fsm (spi (SPIMaster_sync inp s)) = (if config_clk_phase (config s) then IDLE else WAIT)"
    if "spi_done (spi s)" "\<not> pending s"
    using that by (simp add: fsm_sync fsm_next_def spi_done_def spi_start_def)
  have d: "\<not> spi_start s" if "spi_cs (spi s)" "\<not> spi_cs (spi (SPIMaster_sync inp s))"
    using that
    by (cases "fsm (spi s)")
       (auto simp: fsm_sync fsm_next_def spi_done_def spi_start_def spi_cs_def split: if_splits)
  have e: "spi_done (spi s) \<and> \<not> pending s"
    if "fsm (spi s) = SETUP \<or> fsm (spi s) = HOLD"
      "fsm (spi (SPIMaster_sync inp s)) \<noteq> SETUP" "fsm (spi (SPIMaster_sync inp s)) \<noteq> HOLD"
    using that
    by (auto simp: fsm_sync fsm_next_def spi_done_def spi_start_def spi_cs_def split: if_splits)
  show ?thesis using a b c d e by blast
qed

theorem chaining_keeps_cs_witness:
  "spi_done (spi st_done) \<and> pending st_done
   \<and> fsm (spi (SPIMaster_sync wb_idle st_done)) = SETUP
   \<and> spi_cs (spi (SPIMaster_run (\<lambda>_. wb_idle) 3 st_done))
   \<and> fsm (spi (SPIMaster_sync wb_idle (st_done\<lparr>pending := False\<rparr>))) = WAIT"
proof -
  have d: "spi_done (spi st_done)" "pending st_done"
    by code_simp+
  have d': "spi_done (spi (st_done\<lparr>pending := False\<rparr>))"
    "\<not> pending (st_done\<lparr>pending := False\<rparr>)"
    "\<not> config_clk_phase (config (st_done\<lparr>pending := False\<rparr>))"
    by code_simp+
  have r1: "\<not> spi_done (spi (SPIMaster_run (\<lambda>_. wb_idle) 1 st_done))"
    by code_simp
  have r2: "\<not> spi_done (spi (SPIMaster_run (\<lambda>_. wb_idle) 2 st_done))"
    by code_simp
  have r: "\<forall>k. 1 \<le> k \<and> k < 3 \<longrightarrow> \<not> spi_done (spi (SPIMaster_run (\<lambda>_. wb_idle) k st_done))"
  proof (intro allI impI)
    fix k :: nat assume "1 \<le> k \<and> k < 3"
    then have "k = 1 \<or> k = 2" by arith
    then show "\<not> spi_done (spi (SPIMaster_run (\<lambda>_. wb_idle) k st_done))"
      using r1 r2 by auto
  qed
  show ?thesis
    using chaining_keeps_cs [of st_done wb_idle 3 "\<lambda>_. wb_idle"]
          chaining_keeps_cs [of "st_done\<lparr>pending := False\<rparr>" wb_idle 3 "\<lambda>_. wb_idle"] d d' r
    by simp
qed

section \<open>The clock generator\<close>

lemma cg_run_0: "cg_run 0 load p g = g" by (simp add: cg_run_def)
lemma cg_run_Suc: "cg_run (Suc n) load p g = SPIClockGen_sync True load p (cg_run n load p g)"
  by (simp add: cg_run_def)
lemma cg_run_add: "cg_run (a + b) load p g = cg_run a load p (cg_run b load p g)"
  by (simp add: cg_run_def funpow_add)

lemma sub_nonzero: "j < unat (c :: 8 word) \<Longrightarrow> c - of_nat j \<noteq> 0"
proof
  assume j: "j < unat c" and "c - of_nat j = 0"
  then have "c = of_nat j" by simp
  then have "unat c = j mod 256" by (simp add: unat_of_nat)
  with j show False by simp
qed

lemma cg_countdown:
  "j \<le> unat c \<Longrightarrow>
   cg_run j load p \<lparr>cnt = c, bias = b, clk = k\<rparr> = \<lparr>cnt = c - of_nat j, bias = b, clk = k\<rparr>"
proof (induction j)
  case 0
  then show ?case by (simp add: cg_run_0)
next
  case (Suc j)
  then have "c - of_nat j \<noteq> 0" using sub_nonzero [of j c] by simp
  with Suc show ?case
    by (simp add: cg_run_Suc SPIClockGen_sync_def cg_zero_def cg_edge_def)
qed

lemma cg_edge_step:
  "cg_edge g \<Longrightarrow> SPIClockGen_sync True load p g =
     \<lparr>cnt = drop_bit 1 load, bias = (bit load 0 \<and> (clk g \<noteq> p)), clk = \<not> clk g\<rparr>"
  by (cases g) (simp add: SPIClockGen_sync_def cg_zero_def cg_edge_def)

lemma cg_after_edge:
  assumes "cg_edge g" and "j \<le> unat (drop_bit 1 load)"
  shows "cg_run (Suc j) load p g =
     \<lparr>cnt = drop_bit 1 load - of_nat j, bias = (bit load 0 \<and> (clk g \<noteq> p)), clk = \<not> clk g\<rparr>"
proof -
  have "cg_run (Suc j) load p g = cg_run j load p (cg_run 1 load p g)"
    using cg_run_add [of j 1] by simp
  then show ?thesis using assms
    by (simp add: cg_run_Suc cg_run_0 cg_edge_step cg_countdown)
qed

lemma unat_half: "unat (drop_bit 1 (load :: 8 word)) = unat load div 2"
  by (simp add: drop_bit_eq_div unat_div)

lemma bit0_odd: "bit (load :: 8 word) 0 = odd (unat load)"
proof -
  have "bit (unat load) 0 = bit load 0"
    by (simp only: bit_unsigned_iff) simp
  then show ?thesis by (simp only: bit_0)
qed

lemma cg_half_period:
  assumes e: "cg_edge g"
  shows "cg_run (half_period load p g) load p g = \<lparr>cnt = 0, bias = False, clk = \<not> clk g\<rparr>"
    and "1 \<le> k \<Longrightarrow> k \<le> half_period load p g \<Longrightarrow> clk (cg_run k load p g) = (\<not> clk g)"
    and "1 \<le> k \<Longrightarrow> k < half_period load p g \<Longrightarrow> \<not> cg_edge (cg_run k load p g)"
proof -
  let ?hh = "unat load div 2"
  let ?b = "odd (unat load) \<and> clk g \<noteq> p"
  have st: "cg_run (Suc j) load p g =
     \<lparr>cnt = drop_bit 1 load - of_nat j, bias = ?b, clk = \<not> clk g\<rparr>" if "j \<le> ?hh" for j
    using cg_after_edge [OF e, of j load p] that by (simp only: unat_half bit0_odd)
  have z: "drop_bit 1 load - of_nat ?hh = 0"
  proof -
    have "of_nat (unat (drop_bit 1 load)) = drop_bit 1 load" by simp
    then show ?thesis by (simp only: unat_half) simp
  qed
  have nz: "drop_bit 1 load - of_nat j \<noteq> 0" if "j < ?hh" for j
  proof -
    have "j < unat (drop_bit 1 load)" using that by (simp only: unat_half)
    then show ?thesis by (rule sub_nonzero)
  qed
  have top: "cg_run (Suc ?hh) load p g = \<lparr>cnt = 0, bias = ?b, clk = \<not> clk g\<rparr>"
    using st [of ?hh] z by simp
  have top2: "cg_run (Suc (Suc ?hh)) load p g = \<lparr>cnt = 0, bias = False, clk = \<not> clk g\<rparr>"
    if ?b
  proof -
    have "cg_run (Suc (Suc ?hh)) load p g
      = SPIClockGen_sync True load p \<lparr>cnt = 0, bias = ?b, clk = \<not> clk g\<rparr>"
      by (simp only: cg_run_Suc [of "Suc ?hh"] top)
    then show ?thesis using that
      by (simp add: SPIClockGen_sync_def cg_zero_def cg_edge_def)
  qed
  show "cg_run (half_period load p g) load p g = \<lparr>cnt = 0, bias = False, clk = \<not> clk g\<rparr>"
  proof (cases ?b)
    case True
    then have "half_period load p g = Suc (Suc ?hh)" by (simp add: half_period_def)
    then show ?thesis using top2 True by simp
  next
    case False
    then have "half_period load p g = Suc ?hh" by (simp add: half_period_def)
    then show ?thesis using top False by auto
  qed
  show "clk (cg_run k load p g) = (\<not> clk g)" if k1: "1 \<le> k" and k2: "k \<le> half_period load p g"
  proof (cases "k \<le> Suc ?hh")
    case True
    then obtain j where "k = Suc j" "j \<le> ?hh" using k1 by (cases k) auto
    then show ?thesis using st by simp
  next
    case False
    then have "k = Suc (Suc ?hh) \<and> ?b" using k2 by (simp add: half_period_def split: if_splits)
    then show ?thesis using top2 by simp
  qed
  show "\<not> cg_edge (cg_run k load p g)" if k1: "1 \<le> k" and k2: "k < half_period load p g"
  proof (cases "k < Suc ?hh")
    case True
    then obtain j where "k = Suc j" "j < ?hh" using k1 by (cases k) auto
    then show ?thesis using st [of j] nz [of j] by (simp add: cg_edge_def cg_zero_def)
  next
    case False
    then have "k = Suc ?hh \<and> ?b" using k2 by (simp add: half_period_def split: if_splits)
    then show ?thesis using top by (simp add: cg_edge_def)
  qed
qed

text \<open>The clock generator inside the master: it is enabled in every cycle in which
  chip-select is asserted, and its load is one of the two divisors.\<close>

lemma cg_of_master:
  "cg (spi (SPIMaster_sync inp s))
     = SPIClockGen_sync (cg_ce (spi_start s) (spi s))
         (cg_load (config_div_write (config s)) (config_div_read (config s)) (spi s))
         (config_clk_phase (config s)) (cg (spi s))"
  "spi_cs (spi s) \<Longrightarrow> cg_ce (spi_start s) (spi s)"
  "cg_load dw dr m = dw \<or> cg_load dw dr m = dr"
  by (simp_all add: SPIMaster_sync_def SPIMachine_sync_def Let_def cg_ce_def cg_load_def)

text \<open>
  C8. With the clock generator enabled and \<open>load\<close> and \<open>bias\<close> held, starting on an edge:
  the next edges are exactly at ticks \<open>half_period\<close> and \<open>unat load + 2\<close>, the clock is
  inverted from tick 1 to tick \<open>half_period\<close> and back at its level afterwards, and after
  \<open>unat load + 2\<close> ticks the generator is in the state it started from. The two half
  periods add up to \<open>unat load + 2\<close>; for an odd divisor one is \<open>floor(div/2) + 1\<close> and the
  other \<open>floor(div/2) + 2\<close>.
\<close>
theorem clock_period:
  assumes "cg_edge g" and "k \<le> unat load + 2"
  shows "(cg_edge (cg_run k load p g)
            \<longleftrightarrow> k = 0 \<or> k = half_period load p g \<or> k = unat load + 2)
    \<and> clk (cg_run k load p g) = (if 1 \<le> k \<and> k \<le> half_period load p g then \<not> clk g else clk g)
    \<and> cg_run (unat load + 2) load p g = g
    \<and> half_period load p g + half_period load p (cg_run (half_period load p g) load p g) = unat load + 2
    \<and> half_period load p g = unat load div 2 + 1 + (if odd (unat load) \<and> clk g \<noteq> p then 1 else 0)"
proof -
  let ?h = "half_period load p g"
  let ?g' = "cg_run ?h load p g"
  let ?h' = "half_period load p ?g'"
  have g': "?g' = \<lparr>cnt = 0, bias = False, clk = \<not> clk g\<rparr>"
    using cg_half_period(1) [OF assms(1)] .
  have e': "cg_edge ?g'" by (simp add: g' cg_edge_def cg_zero_def)
  have sum: "?h + ?h' = unat load + 2"
    unfolding g' by (auto simp: half_period_def) (presburger+)
  have g: "g = \<lparr>cnt = 0, bias = False, clk = clk g\<rparr>"
    using assms(1) by (cases g) (simp add: cg_edge_def cg_zero_def)
  have ret: "cg_run ?h' load p ?g' = g"
    using cg_half_period(1) [OF e', of load p] g by (simp add: g')
  have full: "cg_run (unat load + 2) load p g = g"
    using cg_run_add [of "?h'" "?h" load p g] ret sum by (simp add: add.commute)
  have second: "cg_run k load p g = cg_run (k - ?h) load p ?g'" if "?h \<le> k"
    using cg_run_add [of "k - ?h" "?h" load p g] that by simp
  have hpos: "1 \<le> ?h" "1 \<le> ?h'" by (simp_all add: half_period_def)
  consider "k = 0" | "1 \<le> k" "k < ?h" | "k = ?h" | "?h < k" "k < ?h + ?h'" | "k = ?h + ?h'"
    using assms(2) sum by linarith
  then have "(cg_edge (cg_run k load p g) \<longleftrightarrow> k = 0 \<or> k = ?h \<or> k = unat load + 2)
    \<and> clk (cg_run k load p g) = (if 1 \<le> k \<and> k \<le> ?h then \<not> clk g else clk g)"
  proof cases
    case 1
    then show ?thesis using assms(1) by (simp add: cg_run_0)
  next
    case 2
    then show ?thesis
      using cg_half_period(2,3) [OF assms(1), of k load p] sum by simp
  next
    case 3
    then show ?thesis using e' g' hpos by simp
  next
    case 4
    then have "1 \<le> k - ?h" "k - ?h < ?h'" by simp_all
    then show ?thesis
      using cg_half_period(2,3) [OF e', of "k - ?h" load p] second 4 sum
      by (simp add: g')
  next
    case 5
    then show ?thesis using full sum assms(1) hpos by simp
  qed
  then show ?thesis using full sum by (simp add: half_period_def)
qed

theorem clock_period_witness:
  "\<not> cg_edge (cg_run 2 3 False cg_rest) \<and> cg_edge (cg_run 3 3 False cg_rest)
   \<and> \<not> clk (cg_run 3 3 False cg_rest) \<and> clk (cg_run 4 3 False cg_rest)
   \<and> cg_run 5 3 False cg_rest = cg_rest
   \<and> half_period 3 False cg_rest = 3"
proof -
  have e: "cg_edge cg_rest" by code_simp
  have k: "2 \<le> unat (3 :: 8 word) + 2" "3 \<le> unat (3 :: 8 word) + 2" "4 \<le> unat (3 :: 8 word) + 2"
    by simp_all
  have u: "unat (3 :: 8 word) + 2 = 5" by simp
  have h: "half_period 3 False cg_rest = 3" by (simp add: half_period_def cg_rest_def)
  have c: "clk cg_rest" by (simp add: cg_rest_def)
  have n: "(2::nat) \<noteq> 0" "(2::nat) \<noteq> 3" "(2::nat) \<noteq> 5" "(3::nat) \<noteq> 0" "(1::nat) \<le> 3" "(3::nat) \<le> 3"
    "(1::nat) \<le> 4" "\<not> (4::nat) \<le> 3"
    by simp_all
  from clock_period [OF e k(1), of False] have a: "\<not> cg_edge (cg_run 2 3 False cg_rest)"
    unfolding u h using n by blast
  from clock_period [OF e k(2), of False] have b: "cg_edge (cg_run 3 3 False cg_rest)"
    "clk (cg_run 3 3 False cg_rest) = (if 1 \<le> (3::nat) \<and> (3::nat) \<le> 3 then \<not> clk cg_rest else clk cg_rest)"
    "cg_run 5 3 False cg_rest = cg_rest"
    unfolding u h by blast+
  from clock_period [OF e k(3), of False] have d:
    "clk (cg_run 4 3 False cg_rest) = (if 1 \<le> (4::nat) \<and> (4::nat) \<le> 3 then \<not> clk cg_rest else clk cg_rest)"
    unfolding u h by blast
  have b': "\<not> clk (cg_run 3 3 False cg_rest)" unfolding b(2) using c by simp
  have d': "clk (cg_run 4 3 False cg_rest)" unfolding d using c by simp
  show ?thesis using a b(1,3) b' d' h by (intro conjI)
qed

section \<open>Transfers in loopback\<close>

lemma frame_refl: "frame s s" by (simp add: frame_def)
lemma frame_trans: "frame s'' s' \<Longrightarrow> frame s' s \<Longrightarrow> frame s'' s" by (simp add: frame_def)

lemma config_fields_status:
  assumes "n \<le> 2" and "m \<le> 2"
  shows "config_clk_phase (assign_bit n a (assign_bit m b c)) = config_clk_phase c"
    and "config_clk_polarity (assign_bit n a (assign_bit m b c)) = config_clk_polarity c"
    and "config_lsb_first (assign_bit n a (assign_bit m b c)) = config_lsb_first c"
    and "config_half_duplex (assign_bit n a (assign_bit m b c)) = config_half_duplex c"
    and "config_div_write (assign_bit n a (assign_bit m b c)) = config_div_write c"
    and "config_div_read (assign_bit n a (assign_bit m b c)) = config_div_read c"
proof -
  show "config_clk_phase (assign_bit n a (assign_bit m b c)) = config_clk_phase c"
    "config_clk_polarity (assign_bit n a (assign_bit m b c)) = config_clk_polarity c"
    "config_lsb_first (assign_bit n a (assign_bit m b c)) = config_lsb_first c"
    "config_half_duplex (assign_bit n a (assign_bit m b c)) = config_half_duplex c"
    using assms
    by (auto simp: config_clk_phase_def config_clk_polarity_def config_lsb_first_def
        config_half_duplex_def bit_assign_bit)
  show "config_div_write (assign_bit n a (assign_bit m b c)) = config_div_write c"
    unfolding config_div_write_def using assms
    by (intro bit_word_eqI) (auto simp: bit_ucast_iff bit_drop_bit_eq bit_assign_bit)
  show "config_div_read (assign_bit n a (assign_bit m b c)) = config_div_read c"
    unfolding config_div_read_def using assms
    by (intro bit_word_eqI) (auto simp: bit_ucast_iff bit_drop_bit_eq bit_assign_bit)
qed

lemma no_edge_no_start: "\<not> cg_edge (cg (spi s)) \<Longrightarrow> spi_cs (spi s) \<Longrightarrow> \<not> spi_start s"
  by (simp add: spi_start_def spi_done_def)

lemma quiet_tick_frame:
  assumes "\<not> cg_edge (cg (spi s))" and "spi_cs (spi s)" and "\<not> we inp"
  shows "frame (SPIMaster_sync inp s) s"
  using assms no_edge_no_start [OF assms(1,2)]
  by (simp add: frame_def SPIMaster_sync_def SPIMachine_sync_def Let_def config_fields_status
      SPIRegister_sync_def SPIBitCounter_sync_def SPIClockGen_sync_def cg_edge_def spi_done_def)

lemma quiet_tick_measure:
  assumes "\<not> cg_edge (cg (spi s))" and "spi_cs (spi s)"
  shows "cg_measure (SPIMaster_sync inp s) < cg_measure s"
proof (cases "cnt (cg (spi s)) = 0")
  case True
  then show ?thesis using assms
    by (simp add: cg_measure_def SPIMaster_sync_def SPIMachine_sync_def Let_def
        SPIClockGen_sync_def cg_edge_def cg_zero_def cg_ce_def)
next
  case False
  then have "unat (cnt (cg (spi s)) - 1) < unat (cnt (cg (spi s)))"
    by (rule measure_unat)
  then show ?thesis using assms False
    by (simp add: cg_measure_def SPIMaster_sync_def SPIMachine_sync_def Let_def
        SPIClockGen_sync_def cg_edge_def cg_zero_def cg_ce_def)
qed

lemma wait_for_edge:
  fixes \<sigma> :: "nat \<Rightarrow> SPIMaster"
  assumes tr: "\<And>k. \<sigma> (Suc k) = SPIMaster_sync (\<iota> k) (\<sigma> k)"
    and quiet: "\<And>k. \<not> we (\<iota> k)"
  shows "spi_cs (spi (\<sigma> a)) \<Longrightarrow>
    \<exists>t\<ge>a. cg_edge (cg (spi (\<sigma> t)))
          \<and> (\<forall>k. a \<le> k \<and> k < t \<longrightarrow> \<not> cg_edge (cg (spi (\<sigma> k))))
          \<and> (\<forall>k. a \<le> k \<and> k \<le> t \<longrightarrow> frame (\<sigma> k) (\<sigma> a))"
proof (induction "cg_measure (\<sigma> a)" arbitrary: a rule: less_induct)
  case less
  show ?case
  proof (cases "cg_edge (cg (spi (\<sigma> a)))")
    case True
    then have "cg_edge (cg (spi (\<sigma> a)))
          \<and> (\<forall>k. a \<le> k \<and> k < a \<longrightarrow> \<not> cg_edge (cg (spi (\<sigma> k))))
          \<and> (\<forall>k. a \<le> k \<and> k \<le> a \<longrightarrow> frame (\<sigma> k) (\<sigma> a))"
      by (auto simp: frame_refl dest: le_antisym)
    then show ?thesis by blast
  next
    case False
    have f1: "frame (\<sigma> (Suc a)) (\<sigma> a)"
      unfolding tr using False less.prems quiet by (rule quiet_tick_frame)
    have m1: "cg_measure (\<sigma> (Suc a)) < cg_measure (\<sigma> a)"
      unfolding tr using False less.prems by (rule quiet_tick_measure)
    have c1: "spi_cs (spi (\<sigma> (Suc a)))"
      using f1 less.prems by (simp add: frame_def spi_cs_def)
    from less.hyps [OF m1 c1] obtain t where t: "Suc a \<le> t" "cg_edge (cg (spi (\<sigma> t)))"
      "\<forall>k. Suc a \<le> k \<and> k < t \<longrightarrow> \<not> cg_edge (cg (spi (\<sigma> k)))"
      "\<forall>k. Suc a \<le> k \<and> k \<le> t \<longrightarrow> frame (\<sigma> k) (\<sigma> (Suc a))"
      by blast
    have n: "\<forall>k. a \<le> k \<and> k < t \<longrightarrow> \<not> cg_edge (cg (spi (\<sigma> k)))"
    proof (intro allI impI)
      fix k assume "a \<le> k \<and> k < t"
      then consider "k = a" | "Suc a \<le> k \<and> k < t" by linarith
      then show "\<not> cg_edge (cg (spi (\<sigma> k)))" using False t(3) by cases auto
    qed
    have fr: "\<forall>k. a \<le> k \<and> k \<le> t \<longrightarrow> frame (\<sigma> k) (\<sigma> a)"
    proof (intro allI impI)
      fix k assume "a \<le> k \<and> k \<le> t"
      then consider "k = a" | "Suc a \<le> k \<and> k \<le> t" by linarith
      then show "frame (\<sigma> k) (\<sigma> a)"
        using t(4) f1 by cases (auto simp: frame_refl intro: frame_trans)
    qed
    from t(1,2) n fr show ?thesis by (meson Suc_leD)
  qed
qed

lemma bits_done_total: "bits_done b = (bits_total b = 0)"
  by (simp add: bits_done_def bits_write_def bits_read_def bits_total_def unat_eq_0)

lemma bits_total_dec:
  "bits_total b \<noteq> 0 \<Longrightarrow> bits_total (SPIBitCounter_sync True b b) = bits_total b - 1"
  by (cases "n_write b = 0")
     (auto simp: SPIBitCounter_sync_def bits_write_def bits_read_def bits_total_def
        unat_minus_one unat_eq_0 dest: unat_gt_0[THEN iffD2])

lemma shift_input_irrelevant:
  "SPIRegister_sync True lsb True False i d e = SPIRegister_sync True lsb True False False d e"
  by (simp add: SPIRegister_sync_def)

text \<open>The sampling edge\<close>
lemma setup_tick:
  assumes "cg_edge (cg (spi s))" and "fsm (spi s) = SETUP" and "\<not> we inp" and "looped inp s"
    and "\<not> pending s"
  shows "fsm (spi (SPIMaster_sync inp s)) = HOLD"
    and "data (reg (spi (SPIMaster_sync inp s)))
           = hw_sample (config_lsb_first (config s)) (data (reg (spi s)))"
    and "bits (spi (SPIMaster_sync inp s)) = SPIBitCounter_sync True (bits (spi s)) (bits (spi s))"
    and "\<not> pending (SPIMaster_sync inp s)"
    and "config_lsb_first (config (SPIMaster_sync inp s)) = config_lsb_first (config s)"
  using assms
  by (simp_all add: SPIMaster_sync_def SPIMachine_sync_def Let_def config_fields_status
      spi_start_def spi_cs_def spi_done_def fsm_next_def reg_sample_def reg_shift_def
      hw_sample_def looped_def reg_i_def mosi_t_o_def reg_o_def)

text \<open>The shifting edge\<close>
lemma hold_tick:
  assumes "cg_edge (cg (spi s))" and "fsm (spi s) = HOLD" and "\<not> we inp"
    and "\<not> pending s" and "\<not> bits_done (bits (spi s))"
  shows "fsm (spi (SPIMaster_sync inp s)) = SETUP"
    and "data (reg (spi (SPIMaster_sync inp s)))
           = hw_shift (config_lsb_first (config s)) (data (reg (spi s)))"
    and "bits (spi (SPIMaster_sync inp s)) = bits (spi s)"
    and "\<not> pending (SPIMaster_sync inp s)"
    and "config_lsb_first (config (SPIMaster_sync inp s)) = config_lsb_first (config s)"
  using assms
  by (simp_all add: SPIMaster_sync_def SPIMachine_sync_def Let_def config_fields_status
      spi_start_def spi_cs_def spi_done_def fsm_next_def reg_sample_def reg_shift_def
      hw_shift_def SPIBitCounter_sync_def shift_input_irrelevant [of _ "reg_i inp s"])

lemma wait_tick:
  assumes "cg_edge (cg (spi s))" and "fsm (spi s) = WAIT" and "\<not> we inp"
    and "\<not> pending s" and "\<not> bits_done (bits (spi s))"
  shows "fsm (spi (SPIMaster_sync inp s)) = SETUP"
    and "data (reg (spi (SPIMaster_sync inp s))) = data (reg (spi s))"
    and "bits (spi (SPIMaster_sync inp s)) = bits (spi s)"
    and "\<not> pending (SPIMaster_sync inp s)"
    and "config_lsb_first (config (SPIMaster_sync inp s)) = config_lsb_first (config s)"
  using assms
  by (simp_all add: SPIMaster_sync_def SPIMachine_sync_def Let_def config_fields_status
      spi_start_def spi_cs_def spi_done_def fsm_next_def reg_sample_def reg_shift_def
      SPIBitCounter_sync_def SPIRegister_sync_def)

lemma start_tick:
  assumes "spi_start s" and "cg_edge (cg (spi s))" and "\<not> we inp"
  shows "fsm (spi (SPIMaster_sync inp s))
           = (if fsm (spi s) = IDLE \<and> config_clk_phase (config s) then WAIT else SETUP)"
    and "data (reg (spi (SPIMaster_sync inp s))) = data_write s"
    and "bits (spi (SPIMaster_sync inp s))
           = \<lparr>n_read = xfer_read_length (xfer s), n_write = xfer_write_length (xfer s)\<rparr>"
    and "\<not> pending (SPIMaster_sync inp s)"
    and "config_lsb_first (config (SPIMaster_sync inp s)) = config_lsb_first (config s)"
    and "data_read (SPIMaster_sync inp s)
           = (if spi_done (spi s) then data (reg (spi s)) else data_read s)"
  using assms
  by (auto simp: SPIMaster_sync_def SPIMachine_sync_def Let_def config_fields_status
      spi_start_def spi_cs_def spi_done_def fsm_next_def reg_sample_def reg_shift_def
      SPIBitCounter_sync_def SPIRegister_sync_def)

lemma transfer_loop:
  fixes \<sigma> :: "nat \<Rightarrow> SPIMaster"
  assumes tr: "\<And>k. \<sigma> (Suc k) = SPIMaster_sync (\<iota> k) (\<sigma> k)"
    and quiet: "\<And>k. \<not> we (\<iota> k)"
    and loop: "\<And>k. looped (\<iota> k) (\<sigma> k)"
  shows "fsm (spi (\<sigma> a)) = SETUP \<Longrightarrow> \<not> pending (\<sigma> a)
    \<Longrightarrow> config_lsb_first (config (\<sigma> a)) = lsb
    \<Longrightarrow> data (reg (spi (\<sigma> a))) = d
    \<Longrightarrow> bits_total (bits (spi (\<sigma> a))) = Suc m
    \<Longrightarrow> \<exists>t>a. spi_done (spi (\<sigma> t))
          \<and> (\<forall>k. a \<le> k \<and> k < t \<longrightarrow> \<not> spi_done (spi (\<sigma> k)))
          \<and> data (reg (spi (\<sigma> t))) = hw_sample lsb (((\<lambda>v. hw_shift lsb (hw_sample lsb v)) ^^ m) d)"
proof (induction m arbitrary: a d)
  case (0 a d)
  have cs_a: "spi_cs (spi (\<sigma> a))" using 0 by (simp add: spi_cs_def)
  from wait_for_edge [of \<sigma> \<iota>, OF tr quiet cs_a]
  obtain t1 where t1: "a \<le> t1" "cg_edge (cg (spi (\<sigma> t1)))"
    "\<forall>k. a \<le> k \<and> k \<le> t1 \<longrightarrow> frame (\<sigma> k) (\<sigma> a)"
    by blast
  have fr1: "frame (\<sigma> t1) (\<sigma> a)" using t1 by simp
  have s1: "fsm (spi (\<sigma> t1)) = SETUP" "\<not> pending (\<sigma> t1)"
    "config_lsb_first (config (\<sigma> t1)) = lsb" "data (reg (spi (\<sigma> t1))) = d"
    "bits_total (bits (spi (\<sigma> t1))) = Suc 0"
    using fr1 0 by (simp_all add: frame_def)
  note e1 = setup_tick [of "\<sigma> t1" "\<iota> t1", OF t1(2) s1(1) quiet loop s1(2), folded tr]
  have h: "fsm (spi (\<sigma> (Suc t1))) = HOLD" "\<not> pending (\<sigma> (Suc t1))"
    "data (reg (spi (\<sigma> (Suc t1)))) = hw_sample lsb d"
    "bits_total (bits (spi (\<sigma> (Suc t1)))) = 0"
    using e1 s1 by (simp_all add: bits_total_dec)
  have cs_h: "spi_cs (spi (\<sigma> (Suc t1)))" using h by (simp add: spi_cs_def)
  from wait_for_edge [of \<sigma> \<iota>, OF tr quiet cs_h]
  obtain t2 where t2: "Suc t1 \<le> t2" "cg_edge (cg (spi (\<sigma> t2)))"
    "\<forall>k. Suc t1 \<le> k \<and> k < t2 \<longrightarrow> \<not> cg_edge (cg (spi (\<sigma> k)))"
    "\<forall>k. Suc t1 \<le> k \<and> k \<le> t2 \<longrightarrow> frame (\<sigma> k) (\<sigma> (Suc t1))"
    by blast
  have fr2: "frame (\<sigma> t2) (\<sigma> (Suc t1))" using t2 by simp
  have d2: "spi_done (spi (\<sigma> t2))" "data (reg (spi (\<sigma> t2))) = hw_sample lsb d"
    using fr2 h t2(2) by (simp_all add: frame_def spi_done_def bits_done_total)
  have nd: "\<not> spi_done (spi (\<sigma> k))" if "a \<le> k" "k < t2" for k
  proof (cases "k \<le> t1")
    case True
    then have "frame (\<sigma> k) (\<sigma> a)" using t1(3) that by simp
    then show ?thesis using 0 by (simp add: frame_def spi_done_def)
  next
    case False
    then show ?thesis using t2(3) that by (simp add: spi_done_def)
  qed
  have "a < t2" using t1(1) t2(1) by simp
  then show ?case using d2 nd by auto
next
  case (Suc m a d)
  have cs_a: "spi_cs (spi (\<sigma> a))" using Suc.prems by (simp add: spi_cs_def)
  from wait_for_edge [of \<sigma> \<iota>, OF tr quiet cs_a]
  obtain t1 where t1: "a \<le> t1" "cg_edge (cg (spi (\<sigma> t1)))"
    "\<forall>k. a \<le> k \<and> k \<le> t1 \<longrightarrow> frame (\<sigma> k) (\<sigma> a)"
    by blast
  have fr1: "frame (\<sigma> t1) (\<sigma> a)" using t1 by simp
  have s1: "fsm (spi (\<sigma> t1)) = SETUP" "\<not> pending (\<sigma> t1)"
    "config_lsb_first (config (\<sigma> t1)) = lsb" "data (reg (spi (\<sigma> t1))) = d"
    "bits_total (bits (spi (\<sigma> t1))) = Suc (Suc m)"
    using fr1 Suc.prems by (simp_all add: frame_def)
  note e1 = setup_tick [of "\<sigma> t1" "\<iota> t1", OF t1(2) s1(1) quiet loop s1(2), folded tr]
  have h: "fsm (spi (\<sigma> (Suc t1))) = HOLD" "\<not> pending (\<sigma> (Suc t1))"
    "data (reg (spi (\<sigma> (Suc t1)))) = hw_sample lsb d"
    "bits_total (bits (spi (\<sigma> (Suc t1)))) = Suc m"
    "config_lsb_first (config (\<sigma> (Suc t1))) = lsb"
    using e1 s1 by (simp_all add: bits_total_dec)
  have cs_h: "spi_cs (spi (\<sigma> (Suc t1)))" using h by (simp add: spi_cs_def)
  from wait_for_edge [of \<sigma> \<iota>, OF tr quiet cs_h]
  obtain t2 where t2: "Suc t1 \<le> t2" "cg_edge (cg (spi (\<sigma> t2)))"
    "\<forall>k. Suc t1 \<le> k \<and> k \<le> t2 \<longrightarrow> frame (\<sigma> k) (\<sigma> (Suc t1))"
    by blast
  have fr2: "frame (\<sigma> t2) (\<sigma> (Suc t1))" using t2 by simp
  have s2: "fsm (spi (\<sigma> t2)) = HOLD" "\<not> pending (\<sigma> t2)"
    "config_lsb_first (config (\<sigma> t2)) = lsb" "data (reg (spi (\<sigma> t2))) = hw_sample lsb d"
    "bits_total (bits (spi (\<sigma> t2))) = Suc m" "\<not> bits_done (bits (spi (\<sigma> t2)))"
    using fr2 h by (simp_all add: frame_def bits_done_total)
  note e2 = hold_tick [of "\<sigma> t2" "\<iota> t2", OF t2(2) s2(1) quiet s2(2) s2(6), folded tr]
  have s3: "fsm (spi (\<sigma> (Suc t2))) = SETUP" "\<not> pending (\<sigma> (Suc t2))"
    "config_lsb_first (config (\<sigma> (Suc t2))) = lsb"
    "data (reg (spi (\<sigma> (Suc t2)))) = hw_shift lsb (hw_sample lsb d)"
    "bits_total (bits (spi (\<sigma> (Suc t2)))) = Suc m"
    using e2 s2 by simp_all
  from Suc.IH [OF s3]
  obtain t where t: "Suc t2 < t" "spi_done (spi (\<sigma> t))"
    "\<forall>k. Suc t2 \<le> k \<and> k < t \<longrightarrow> \<not> spi_done (spi (\<sigma> k))"
    "data (reg (spi (\<sigma> t)))
       = hw_sample lsb (((\<lambda>v. hw_shift lsb (hw_sample lsb v)) ^^ m) (hw_shift lsb (hw_sample lsb d)))"
    by blast
  have nd: "\<not> spi_done (spi (\<sigma> k))" if "a \<le> k" "k < t" for k
  proof -
    consider "k \<le> t1" | "Suc t1 \<le> k \<and> k \<le> t2" | "Suc t2 \<le> k" by linarith
    then show ?thesis
    proof cases
      case 1
      then have "frame (\<sigma> k) (\<sigma> a)" using t1(3) that by simp
      then show ?thesis using Suc.prems by (simp add: frame_def spi_done_def)
    next
      case 2
      then have "frame (\<sigma> k) (\<sigma> (Suc t1))" using t2(3) by simp
      then show ?thesis using h by (simp add: frame_def spi_done_def bits_done_total)
    next
      case 3
      then show ?thesis using t(3) that by simp
    qed
  qed
  have "a < t" using t1(1) t2(1) t(1) by simp
  moreover have "data (reg (spi (\<sigma> t)))
      = hw_sample lsb (((\<lambda>v. hw_shift lsb (hw_sample lsb v)) ^^ Suc m) d)"
    by (simp only: t(4) funpow_Suc_right o_apply)
  ultimately show ?case using t(2) nd by auto
qed

lemma transfer_from_start:
  fixes \<sigma> :: "nat \<Rightarrow> SPIMaster"
  assumes tr: "\<And>k. \<sigma> (Suc k) = SPIMaster_sync (\<iota> k) (\<sigma> k)"
    and quiet: "\<And>k. \<not> we (\<iota> k)"
    and loop: "\<And>k. looped (\<iota> k) (\<sigma> k)"
    and start: "spi_start (\<sigma> 0)" and edge: "cg_edge (cg (spi (\<sigma> 0)))"
    and len: "unat (xfer_write_length (xfer (\<sigma> 0))) + unat (xfer_read_length (xfer (\<sigma> 0))) = Suc m"
    and lsb: "config_lsb_first (config (\<sigma> 0)) = lsb"
  shows "\<exists>t\<ge>1. spi_done (spi (\<sigma> t))
          \<and> (\<forall>k. 1 \<le> k \<and> k < t \<longrightarrow> \<not> spi_done (spi (\<sigma> k)))
          \<and> data (reg (spi (\<sigma> t)))
              = hw_sample lsb (((\<lambda>v. hw_shift lsb (hw_sample lsb v)) ^^ m) (data_write (\<sigma> 0)))"
proof -
  note e0 = start_tick [of "\<sigma> 0" "\<iota> 0", OF start edge quiet, folded tr]
  have s1: "\<not> pending (\<sigma> (Suc 0))" "config_lsb_first (config (\<sigma> (Suc 0))) = lsb"
    "data (reg (spi (\<sigma> (Suc 0)))) = data_write (\<sigma> 0)"
    "bits_total (bits (spi (\<sigma> (Suc 0)))) = Suc m"
    using e0 len lsb by (simp_all add: bits_total_def)
  have f1: "fsm (spi (\<sigma> (Suc 0))) = WAIT \<or> fsm (spi (\<sigma> (Suc 0))) = SETUP"
    using e0(1) by simp
  then show ?thesis
  proof
    assume w: "fsm (spi (\<sigma> (Suc 0))) = WAIT"
    then have cs1: "spi_cs (spi (\<sigma> (Suc 0)))" by (simp add: spi_cs_def)
    from wait_for_edge [of \<sigma> \<iota>, OF tr quiet cs1]
    obtain t1 where t1: "Suc 0 \<le> t1" "cg_edge (cg (spi (\<sigma> t1)))"
      "\<forall>k. Suc 0 \<le> k \<and> k \<le> t1 \<longrightarrow> frame (\<sigma> k) (\<sigma> (Suc 0))"
      by blast
    have fr1: "frame (\<sigma> t1) (\<sigma> (Suc 0))" using t1 by simp
    have s2: "fsm (spi (\<sigma> t1)) = WAIT" "\<not> pending (\<sigma> t1)"
      "config_lsb_first (config (\<sigma> t1)) = lsb" "data (reg (spi (\<sigma> t1))) = data_write (\<sigma> 0)"
      "bits_total (bits (spi (\<sigma> t1))) = Suc m" "\<not> bits_done (bits (spi (\<sigma> t1)))"
      using fr1 s1 w by (simp_all add: frame_def bits_done_total)
    note e2 = wait_tick [of "\<sigma> t1" "\<iota> t1", OF t1(2) s2(1) quiet s2(2) s2(6), folded tr]
    have s3: "fsm (spi (\<sigma> (Suc t1))) = SETUP" "\<not> pending (\<sigma> (Suc t1))"
      "config_lsb_first (config (\<sigma> (Suc t1))) = lsb"
      "data (reg (spi (\<sigma> (Suc t1)))) = data_write (\<sigma> 0)"
      "bits_total (bits (spi (\<sigma> (Suc t1)))) = Suc m"
      using e2 s2 by simp_all
    from transfer_loop [of \<sigma> \<iota>, OF tr quiet loop s3]
    obtain t where t: "Suc t1 < t" "spi_done (spi (\<sigma> t))"
      "\<forall>k. Suc t1 \<le> k \<and> k < t \<longrightarrow> \<not> spi_done (spi (\<sigma> k))"
      "data (reg (spi (\<sigma> t)))
         = hw_sample lsb (((\<lambda>v. hw_shift lsb (hw_sample lsb v)) ^^ m) (data_write (\<sigma> 0)))"
      by blast
    have nd: "\<not> spi_done (spi (\<sigma> k))" if "1 \<le> k" "k < t" for k
    proof (cases "k \<le> t1")
      case True
      then have "frame (\<sigma> k) (\<sigma> (Suc 0))" using t1(3) that by simp
      then show ?thesis using w by (simp add: frame_def spi_done_def)
    next
      case False
      then show ?thesis using t(3) that by simp
    qed
    have "1 \<le> t" using t(1) by simp
    then show ?thesis using t(2,4) nd by blast
  next
    assume st: "fsm (spi (\<sigma> (Suc 0))) = SETUP"
    from transfer_loop [of \<sigma> \<iota>, OF tr quiet loop st s1]
    obtain t where t: "Suc 0 < t" "spi_done (spi (\<sigma> t))"
      "\<forall>k. Suc 0 \<le> k \<and> k < t \<longrightarrow> \<not> spi_done (spi (\<sigma> k))"
      "data (reg (spi (\<sigma> t)))
         = hw_sample lsb (((\<lambda>v. hw_shift lsb (hw_sample lsb v)) ^^ m) (data_write (\<sigma> 0)))"
      by blast
    have "1 \<le> t" using t(1) by simp
    then show ?thesis using t(2,3,4) by auto
  qed
qed

lemma loopback_looped: "looped (loopback_in inp s) s"
  by (simp add: looped_def loopback_in_def)

lemma loopback_we: "we (loopback_in inp s) = we inp"
  by (simp add: loopback_in_def)

lemma loopback_transfer:
  assumes "spi_start s" and "cg_edge (cg (spi s))" and "\<forall>k. \<not> we (f k)"
    and "unat (xfer_write_length (xfer s)) + unat (xfer_read_length (xfer s)) = Suc m"
  shows "\<exists>t\<ge>1. spi_done (spi (loopback_run f t s))
          \<and> (\<forall>k. 1 \<le> k \<and> k < t \<longrightarrow> \<not> spi_done (spi (loopback_run f k s)))
          \<and> data (reg (spi (loopback_run f t s)))
              = hw_sample (config_lsb_first (config s))
                  (((\<lambda>v. hw_shift (config_lsb_first (config s))
                           (hw_sample (config_lsb_first (config s)) v)) ^^ m) (data_write s))
          \<and> data_read (loopback_run f (Suc t) s) = data (reg (spi (loopback_run f t s)))"
proof -
  let ?\<sigma> = "\<lambda>k. loopback_run f k s"
  let ?\<iota> = "\<lambda>k. loopback_in (f k) (loopback_run f k s)"
  have tr: "\<And>k. ?\<sigma> (Suc k) = SPIMaster_sync (?\<iota> k) (?\<sigma> k)" by simp
  have quiet: "\<And>k. \<not> we (?\<iota> k)" using assms(3) by (simp add: loopback_we)
  have loop: "\<And>k. looped (?\<iota> k) (?\<sigma> k)" by (rule loopback_looped)
  have z: "?\<sigma> 0 = s" by simp
  from transfer_from_start [of ?\<sigma> ?\<iota> m "config_lsb_first (config s)", OF tr quiet loop]
    assms(1,2,4)
  obtain t where t: "1 \<le> t" "spi_done (spi (?\<sigma> t))"
    "\<forall>k. 1 \<le> k \<and> k < t \<longrightarrow> \<not> spi_done (spi (?\<sigma> k))"
    "data (reg (spi (?\<sigma> t)))
       = hw_sample (config_lsb_first (config s))
                  (((\<lambda>v. hw_shift (config_lsb_first (config s))
                           (hw_sample (config_lsb_first (config s)) v)) ^^ m) (data_write s))"
    by (auto simp: z)
  have "data_read (?\<sigma> (Suc t)) = data (reg (spi (?\<sigma> t)))"
    using t(2) by (simp add: SPIMaster_sync_def Let_def)
  then show ?thesis using t by blast
qed

section \<open>The reference model and the shift register\<close>

lemma bit_hw_sample:
  "bit (hw_sample lsb d) n
     = (if lsb then (if n = 31 then bit d 0 else bit d n) else (if n = 0 then bit d 31 else bit d n))"
  by (simp add: hw_sample_def bit_sample reg_o_def)

lemma bit_hw_shift:
  "bit (hw_shift lsb d) n
     = (if lsb then (if n = 31 then bit d 31 else bit d (n + 1))
        else (if n = 0 then bit d 0 else n < 32 \<and> bit d (n - 1)))"
  by (simp add: hw_shift_def bit_shift_l bit_shift_r)

lemma bit_hw_step:
  "bit (hw_step lsb d) n
     = (if lsb then (if n = 31 then bit d 1 else bit d (n + 1))
        else (if n = 0 then bit d 30 else n < 32 \<and> bit d (n - 1)))"
  by (auto simp: hw_step_def bit_hw_sample bit_hw_shift)

lemma bit_hw_step_pow_msb:
  "n < 31 \<Longrightarrow> bit ((hw_step False ^^ k) d) n = bit d ((n + 30 * k) mod 31)"
proof (induction k arbitrary: n)
  case 0
  then show ?case by simp
next
  case (Suc k)
  show ?case
  proof (cases "n = 0")
    case True
    have "(30 + 30 * k) mod 31 = (0 + 30 * Suc k) mod (31::nat)" by simp
    then show ?thesis using True Suc.IH [of 30] by (simp add: bit_hw_step)
  next
    case False
    then have "n + 30 * Suc k = (n - 1 + 30 * k) + 31" by simp
    then have "(n - 1 + 30 * k) mod 31 = (n + 30 * Suc k) mod 31"
      by (simp only: mod_add_self2)
    then show ?thesis using False Suc.prems Suc.IH [of "n - 1"] by (simp add: bit_hw_step)
  qed
qed

lemma bit_hw_step_pow_lsb:
  "1 \<le> n \<Longrightarrow> n \<le> 31 \<Longrightarrow> bit ((hw_step True ^^ k) d) n = bit d (1 + (n - 1 + k) mod 31)"
proof (induction k arbitrary: n)
  case 0
  then show ?case by simp
next
  case (Suc k)
  show ?case
  proof (cases "n = 31")
    case True
    have "31 - 1 + Suc k = (1 - 1 + k) + (31::nat)" by simp
    then have "1 + (1 - 1 + k) mod 31 = 1 + (31 - 1 + Suc k) mod (31::nat)"
      by (simp only: mod_add_self2)
    then show ?thesis using True Suc.IH [of 1] by (simp add: bit_hw_step)
  next
    case False
    have "n + 1 - 1 + k = n - 1 + Suc k" using Suc.prems by simp
    then have "1 + (n + 1 - 1 + k) mod 31 = 1 + (n - 1 + Suc k) mod 31"
      by simp
    then show ?thesis using False Suc.prems Suc.IH [of "n + 1"] by (simp add: bit_hw_step)
  qed
qed

lemma hw_step_period_msb:
  assumes "bit d 31 = bit d 0"
  shows "(hw_step False ^^ 31) d = d"
proof (rule bit_word_eqI)
  fix n assume "n < LENGTH(32)"
  then have n: "n < 32" by simp
  show "bit ((hw_step False ^^ 31) d) n = bit d n"
  proof (cases "n = 31")
    case True
    have "(hw_step False ^^ Suc 30) d = hw_step False ((hw_step False ^^ 30) d)"
      by (simp only: funpow.simps o_apply)
    then have "bit ((hw_step False ^^ Suc 30) d) 31 = bit ((hw_step False ^^ 30) d) 30"
      by (simp only: bit_hw_step) simp
    also have "\<dots> = bit d ((30 + 30 * 30) mod 31)"
      by (rule bit_hw_step_pow_msb) simp
    also have "(30 + 30 * 30) mod 31 = (0::nat)" by simp
    finally have "bit ((hw_step False ^^ Suc 30) d) 31 = bit d 31" using assms by simp
    moreover have "Suc 30 = 31" by simp
    ultimately show ?thesis using True by (simp only:)
  next
    case False
    then have n31: "n < 31" using n by simp
    have "bit ((hw_step False ^^ 31) d) n = bit d ((n + 30 * 31) mod 31)"
      by (rule bit_hw_step_pow_msb [OF n31])
    also have "(n + 30 * 31) mod 31 = n"
    proof -
      have "(n + 31 * 30) mod 31 = n mod 31" by (rule mod_mult_self2)
      then show ?thesis using n31 by (simp add: mult.commute)
    qed
    finally show ?thesis .
  qed
qed

lemma hw_step_period_lsb:
  assumes "bit d 31 = bit d 0"
  shows "(hw_step True ^^ 31) d = d"
proof (rule bit_word_eqI)
  fix n assume "n < LENGTH(32)"
  then have n: "n < 32" by simp
  show "bit ((hw_step True ^^ 31) d) n = bit d n"
  proof (cases "n = 0")
    case True
    have "(hw_step True ^^ Suc 30) d = hw_step True ((hw_step True ^^ 30) d)"
      by (simp only: funpow.simps o_apply)
    then have "bit ((hw_step True ^^ Suc 30) d) 0 = bit ((hw_step True ^^ 30) d) 1"
      by (simp only: bit_hw_step) simp
    also have "\<dots> = bit d (1 + (1 - 1 + 30) mod 31)"
      by (rule bit_hw_step_pow_lsb) simp_all
    also have "1 + (1 - 1 + 30) mod 31 = (31::nat)" by simp
    finally have "bit ((hw_step True ^^ Suc 30) d) 0 = bit d 0" using assms by simp
    moreover have "Suc 30 = 31" by simp
    ultimately show ?thesis using True by (simp only:)
  next
    case False
    then have n1: "1 \<le> n" "n \<le> 31" using n by simp_all
    have "bit ((hw_step True ^^ 31) d) n = bit d (1 + (n - 1 + 31) mod 31)"
      by (rule bit_hw_step_pow_lsb [OF n1])
    also have "1 + (n - 1 + 31) mod 31 = n"
    proof -
      have "(n - 1 + 31) mod 31 = (n - 1) mod 31" by (rule mod_add_self2)
      then show ?thesis using n1 by simp
    qed
    finally show ?thesis .
  qed
qed

lemma hw_sample_inv: "bit (hw_sample lsb d) 31 = bit (hw_sample lsb d) 0"
  by (simp add: bit_hw_sample)

lemma hw_result_step:
  "hw_sample lsb (((\<lambda>v. hw_shift lsb (hw_sample lsb v)) ^^ k) d)
     = (hw_step lsb ^^ k) (hw_sample lsb d)"
  by (induction k) (simp_all add: hw_step_def)

lemma hw_result_periodic:
  "hw_sample lsb (((\<lambda>v. hw_shift lsb (hw_sample lsb v)) ^^ (k + 31)) d)
     = hw_sample lsb (((\<lambda>v. hw_shift lsb (hw_sample lsb v)) ^^ k) d)"
proof -
  have "(hw_step lsb ^^ 31) (hw_sample lsb d) = hw_sample lsb d"
    using hw_step_period_msb [OF hw_sample_inv, of False d]
          hw_step_period_lsb [OF hw_sample_inv, of True d]
    by (cases lsb) simp_all
  then show ?thesis
    by (simp only: hw_result_step funpow_add o_apply)
qed

lemma take_bit32_uint: "take_bit 32 (uint (x :: 32 word)) = uint x"
  by (rule bintr_uint) simp

lemma uint_drop32: "uint (drop_bit n (x :: 32 word)) = drop_bit n (uint x)"
  by (simp add: unsigned_drop_bit_eq take_bit32_uint)

lemma bit_beyond: "bit (d :: 32 word) (31 + n) = (n = 0 \<and> bit d 31)"
proof (cases "n = 0")
  case True
  then show ?thesis by simp
next
  case False
  have "\<not> bit d (31 + n)"
  proof
    assume "bit d (31 + n)"
    then have "31 + n < LENGTH(32)" by (rule bit_imp_le_length)
    then show False using False by simp
  qed
  then show ?thesis using False by simp
qed

lemma bit_msb_word: "bit (push_bit 31 (1 :: 32 word)) n = (n = 31)"
  by (simp only: bit_push_bit_iff bit_1_iff) (auto simp: possible_bit_word)

lemma bit_double32: "bit (x * 2 :: 32 word) n = (0 < n \<and> n < 32 \<and> bit x (n - 1))"
  using bit_push1 [of x n] by simp

lemma bit_half32: "bit (x div 2 :: 32 word) n = bit x (n + 1)"
  using bit_drop1 [of x n] by (simp add: drop_bit_eq_div)

lemma msb_xor_lsb:
  "(drop_bit 31 (uint (d :: 32 word)) XOR (uint d AND 1) \<noteq> 0) = (bit d 31 \<noteq> bit d 0)"
proof -
  have "drop_bit 31 (uint d) XOR (uint d AND 1) = uint (drop_bit 31 d XOR (d AND 1))"
    by (simp only: uint_xor uint_and uint_drop32 unsigned_1)
  moreover have "drop_bit 31 d XOR (d AND 1) = (if bit d 31 \<noteq> bit d 0 then 1 else 0)"
    by (rule bit_word_eqI)
       (auto simp: bit_xor_iff bit_and_iff bit_drop_bit_eq bit_1_iff bit_beyond)
  ultimately show ?thesis by (simp only: uint_0_eq) auto
qed

lemma sampl_hw: "sampl (uint (d :: 32 word)) 32 = uint (hw_sample False d)"
proof -
  have w: "hw_sample False d = (if bit d 31 \<noteq> bit d 0 then d XOR 1 else d)"
    by (rule bit_word_eqI) (auto simp: bit_hw_sample bit_xor_iff bit_1_iff)
  have "uint d XOR 1 = uint (d XOR 1)" by (simp only: uint_xor unsigned_1)
  then show ?thesis
    unfolding sampl_def w using msb_xor_lsb [of d] by simp
qed

lemma sampr_hw: "sampr (uint (d :: 32 word)) 32 = uint (hw_sample True d)"
proof -
  have w: "hw_sample True d = (if bit d 31 \<noteq> bit d 0 then d XOR push_bit 31 1 else d)"
    by (rule bit_word_eqI) (auto simp only: bit_hw_sample bit_xor_iff bit_msb_word split: if_splits)
  have "uint (push_bit 31 (1 :: 32 word)) = push_bit 31 1"
    by (simp only: unsigned_push_bit_eq unsigned_1) simp
  then have "uint d XOR push_bit 31 1 = uint (d XOR push_bit 31 1)"
    by (simp only: uint_xor)
  then show ?thesis
    unfolding sampr_def w using msb_xor_lsb [of d] by simp
qed

lemma mask32: "push_bit (nat 32) 1 - 1 = (mask 32 :: int)"
  by (simp add: mask_eq_exp_minus_1)

lemma rol_word: "rol (uint (x :: 32 word)) 32 = uint (push_bit 1 x OR drop_bit 31 x)"
proof -
  have a: "push_bit 1 (uint x) AND mask 32 = uint (push_bit 1 x)"
    by (simp only: unsigned_push_bit_eq take_bit_eq_mask) simp
  have b: "drop_bit 31 (uint x AND mask 32) = uint (drop_bit 31 x)"
    by (simp only: uint_drop32 take_bit32_uint flip: take_bit_eq_mask)
  have n: "nat (32 - 1) = 31" by simp
  show ?thesis
    unfolding rol_def Let_def mask32 n a b by (simp only: uint_or)
qed

lemma ror_word: "ror (uint (x :: 32 word)) 32 = uint (push_bit 31 x OR drop_bit 1 x)"
proof -
  have a: "push_bit 31 (uint x) AND mask 32 = uint (push_bit 31 x)"
    by (simp only: unsigned_push_bit_eq take_bit_eq_mask) simp
  have b: "drop_bit 1 (uint x AND mask 32) = uint (drop_bit 1 x)"
    by (simp only: uint_drop32 take_bit32_uint flip: take_bit_eq_mask)
  have n: "nat (32 - 1) = 31" by simp
  show ?thesis
    unfolding ror_def Let_def mask32 n a b by (simp only: uint_or)
qed

lemma rol_sampl_hw:
  "rol (sampl (uint (d :: 32 word)) 32) 32 = uint (hw_shift False (hw_sample False d))"
proof -
  have "push_bit 1 (hw_sample False d) OR drop_bit 31 (hw_sample False d)
      = hw_shift False (hw_sample False d)"
    by (rule bit_word_eqI)
       (auto simp: bit_or_iff bit_push_bit_iff bit_drop_bit_eq bit_hw_shift bit_hw_sample
          bit_double32 bit_half32 dest: bit_imp_le_length)
  then show ?thesis by (simp only: sampl_hw rol_word)
qed

lemma ror_sampr_hw:
  "ror (sampr (uint (d :: 32 word)) 32) 32 = uint (hw_shift True (hw_sample True d))"
proof -
  have "push_bit 31 (hw_sample True d) OR drop_bit 1 (hw_sample True d)
      = hw_shift True (hw_sample True d)"
    by (rule bit_word_eqI)
       (auto simp: bit_or_iff bit_push_bit_iff bit_drop_bit_eq bit_hw_shift bit_hw_sample
          bit_double32 bit_half32 dest: bit_imp_le_length)
  then show ?thesis by (simp only: sampr_hw ror_word)
qed

lemma rol_loop_hw:
  "((\<lambda>v. rol (sampl v 32) 32) ^^ k) (uint (d :: 32 word))
     = uint (((\<lambda>v. hw_shift False (hw_sample False v)) ^^ k) d)"
  by (induction k) (simp_all add: rol_sampl_hw)

lemma ror_loop_hw:
  "((\<lambda>v. ror (sampr v 32) 32) ^^ k) (uint (d :: 32 word))
     = uint (((\<lambda>v. hw_shift True (hw_sample True v)) ^^ k) d)"
  by (induction k) (simp_all add: ror_sampr_hw)

lemma simulate_shifts_hw:
  "simulate_shifts (uint (d :: 32 word)) (int (Suc m)) lsb 32
     = Inr (uint (hw_sample lsb (((\<lambda>v. hw_shift lsb (hw_sample lsb v)) ^^ m) d)))"
proof -
  have n: "nat (int (Suc m) - 1) = m" by simp
  show ?thesis
    unfolding simulate_shifts_def n
    by (cases lsb) (simp_all add: rol_loop_hw ror_loop_hw sampl_hw sampr_hw)
qed

text \<open>
  C1. A transfer of \<open>n = write_length + read_length\<close> bits, \<open>n\<close> at least 1, that starts
  (\<open>start\<close> asserted on a clock-generator edge, from \<open>IDLE\<close> or chained at a \<open>done\<close>
  pulse) with the serial output looped back to the serial inputs and no bus write in
  between reaches its \<open>done\<close> pulse; at that pulse the shift register holds
  \<open>_simulate_shifts(data_write, n, lsb_first, 32)\<close>, for every written value, bit order,
  clock phase, polarity and divisors, and the tick latches it into \<open>data_read\<close>. The
  reference value is the same for \<open>n + 31\<close> samples.
\<close>

theorem loopback_shift_periodicity:
  assumes "spi_start s" and "cg_edge (cg (spi s))" and "\<forall>k. \<not> we (f k)"
    and "n = unat (xfer_write_length (xfer s)) + unat (xfer_read_length (xfer s))"
    and "1 \<le> n"
  shows "(\<exists>t\<ge>1. spi_done (spi (loopback_run f t s))
          \<and> (\<forall>k. 1 \<le> k \<and> k < t \<longrightarrow> \<not> spi_done (spi (loopback_run f k s)))
          \<and> simulate_shifts (uint (data_write s)) (int n) (config_lsb_first (config s)) 32
              = Inr (uint (data (reg (spi (loopback_run f t s)))))
          \<and> data_read (loopback_run f (Suc t) s) = data (reg (spi (loopback_run f t s))))
     \<and> simulate_shifts (uint (data_write s)) (int n + 31) (config_lsb_first (config s)) 32
          = simulate_shifts (uint (data_write s)) (int n) (config_lsb_first (config s)) 32"
proof -
  let ?lsb = "config_lsb_first (config s)"
  let ?v = "data_write s"
  obtain m where m: "n = Suc m" using assms(5) by (cases n) auto
  have len: "unat (xfer_write_length (xfer s)) + unat (xfer_read_length (xfer s)) = Suc m"
    using assms(4) m by simp
  have i1: "int n = int (Suc m)" using m by simp
  have i2: "int n + 31 = int (Suc (m + 31))" using m by simp
  have ref: "simulate_shifts (uint ?v) (int n) ?lsb 32
      = Inr (uint (hw_sample ?lsb (((\<lambda>v. hw_shift ?lsb (hw_sample ?lsb v)) ^^ m) ?v)))"
    unfolding i1 by (rule simulate_shifts_hw)
  have ref': "simulate_shifts (uint ?v) (int n + 31) ?lsb 32
      = Inr (uint (hw_sample ?lsb (((\<lambda>v. hw_shift ?lsb (hw_sample ?lsb v)) ^^ (m + 31)) ?v)))"
    unfolding i2 by (rule simulate_shifts_hw)
  have per: "simulate_shifts (uint ?v) (int n + 31) ?lsb 32 = simulate_shifts (uint ?v) (int n) ?lsb 32"
    unfolding ref ref' hw_result_periodic ..
  from loopback_transfer [OF assms(1-3) len]
  obtain t where t: "1 \<le> t" "spi_done (spi (loopback_run f t s))"
    "\<forall>k. 1 \<le> k \<and> k < t \<longrightarrow> \<not> spi_done (spi (loopback_run f k s))"
    "data (reg (spi (loopback_run f t s)))
       = hw_sample ?lsb (((\<lambda>v. hw_shift ?lsb (hw_sample ?lsb v)) ^^ m) ?v)"
    "data_read (loopback_run f (Suc t) s) = data (reg (spi (loopback_run f t s)))"
    by blast
  have "simulate_shifts (uint ?v) (int n) ?lsb 32
      = Inr (uint (data (reg (spi (loopback_run f t s)))))"
    unfolding ref t(4) ..
  with t(1,2,3,5) have "\<exists>t\<ge>1. spi_done (spi (loopback_run f t s))
          \<and> (\<forall>k. 1 \<le> k \<and> k < t \<longrightarrow> \<not> spi_done (spi (loopback_run f k s)))
          \<and> simulate_shifts (uint ?v) (int n) ?lsb 32
              = Inr (uint (data (reg (spi (loopback_run f t s)))))
          \<and> data_read (loopback_run f (Suc t) s) = data (reg (spi (loopback_run f t s)))"
    by (intro exI [of _ t] conjI)
  with per show ?thesis by (rule conjI [rotated])
qed

theorem loopback_shift_periodicity_witness:
  "\<exists>t\<ge>1. spi_done (spi (loopback_run (\<lambda>_. wb_idle) t st_xfer))
        \<and> data_read (loopback_run (\<lambda>_. wb_idle) (Suc t) st_xfer) = 0x80000009"
proof -
  have h: "spi_start st_xfer" "cg_edge (cg (spi st_xfer))"
    by code_simp+
  have q: "\<forall>k. \<not> we ((\<lambda>_. wb_idle) k)" by (simp add: wb_idle_def)
  have n: "4 = unat (xfer_write_length (xfer st_xfer)) + unat (xfer_read_length (xfer st_xfer))"
    by code_simp
  have l: "(1::nat) \<le> 4" by simp
  have r: "simulate_shifts (uint (data_write st_xfer)) (int 4) (config_lsb_first (config st_xfer)) 32
    = Inr (uint (0x80000009 :: 32 word))"
    by code_simp
  from loopback_shift_periodicity [OF h q n l] obtain t where
    t: "1 \<le> t" "spi_done (spi (loopback_run (\<lambda>_. wb_idle) t st_xfer))"
    "simulate_shifts (uint (data_write st_xfer)) (int 4) (config_lsb_first (config st_xfer)) 32
       = Inr (uint (data (reg (spi (loopback_run (\<lambda>_. wb_idle) t st_xfer)))))"
    "data_read (loopback_run (\<lambda>_. wb_idle) (Suc t) st_xfer)
       = data (reg (spi (loopback_run (\<lambda>_. wb_idle) t st_xfer)))"
    by blast
  from t(3) r have "data (reg (spi (loopback_run (\<lambda>_. wb_idle) t st_xfer))) = 0x80000009"
    by (simp only: sum.inject word_uint_eq_iff)
  then show ?thesis using t by auto
qed

section \<open>Zero-length transfers\<close>

lemma zero_inv_tick:
  assumes "zero_inv s" and "\<not> we inp"
  shows "zero_inv (SPIMaster_sync inp s)"
    and "\<not> spi_done (spi s)"
    and "data_read (SPIMaster_sync inp s) = data_read s"
proof -
  show nd: "\<not> spi_done (spi s)" using assms(1) by (auto simp: zero_inv_def spi_done_def)
  show "data_read (SPIMaster_sync inp s) = data_read s"
    using nd by (simp add: SPIMaster_sync_def Let_def)
  have c: "config_clk_phase (config (SPIMaster_sync inp s))"
    "xfer (SPIMaster_sync inp s) = xfer s"
    using assms by (simp_all add: SPIMaster_sync_def Let_def config_fields_status zero_inv_def)
  have f: "fsm (spi (SPIMaster_sync inp s)) = IDLE
    \<or> (fsm (spi (SPIMaster_sync inp s)) = WAIT \<and> bits_done (bits (spi (SPIMaster_sync inp s))))"
    using assms(1) nd
    by (auto simp: zero_inv_def SPIMaster_sync_def SPIMachine_sync_def Let_def fsm_next_def
        spi_start_def spi_cs_def reg_sample_def SPIBitCounter_sync_def bits_done_def
        bits_write_def bits_read_def)
  show "zero_inv (SPIMaster_sync inp s)"
    using c f assms(1) by (simp add: zero_inv_def)
qed

lemma zero_inv_run:
  assumes "zero_inv s" and "\<forall>k. \<not> we (f k)"
  shows "zero_inv (SPIMaster_run f n s) \<and> data_read (SPIMaster_run f n s) = data_read s"
proof (induction n)
  case 0
  then show ?case using assms(1) by simp
next
  case (Suc n)
  then show ?case using zero_inv_tick(1,3) [of "SPIMaster_run f n s" "f n"] assms(2) by simp
qed

lemma idle_wait_tick:
  assumes "cg_edge (cg (spi s))" and "fsm (spi s) = WAIT" and "\<not> we inp"
    and "\<not> pending s" and "bits_done (bits (spi s))"
  shows "fsm (spi (SPIMaster_sync inp s)) = IDLE" and "\<not> pending (SPIMaster_sync inp s)"
  using assms
  by (simp_all add: SPIMaster_sync_def SPIMachine_sync_def Let_def spi_start_def spi_cs_def
      spi_done_def fsm_next_def)

text \<open>
  C5. A transfer started from \<open>IDLE\<close> on a clock-generator edge with both lengths zero
  and \<open>clk_phase\<close> set, with no bus write afterwards: chip-select is asserted from the next
  cycle and released again (the sequencer goes \<open>IDLE\<close>, \<open>WAIT\<close>, \<open>IDLE\<close>) with nothing left
  pending, \<open>done\<close> is not asserted in any cycle, and \<open>data_read\<close> keeps its value.
\<close>
theorem zero_length_phase1:
  assumes "fsm (spi s) = IDLE" and "cg_edge (cg (spi s))" and "pending s"
    and "config_clk_phase (config s)"
    and "xfer_write_length (xfer s) = 0" and "xfer_read_length (xfer s) = 0"
    and "\<forall>k. \<not> we (f k)"
  shows "\<not> spi_done (spi (SPIMaster_run f n s))
    \<and> data_read (SPIMaster_run f n s) = data_read s
    \<and> (\<exists>t\<ge>2. \<not> spi_cs (spi (SPIMaster_run f t s)) \<and> \<not> pending (SPIMaster_run f t s)
           \<and> (\<forall>k. 1 \<le> k \<and> k < t \<longrightarrow> spi_cs (spi (SPIMaster_run f k s))))"
proof -
  let ?\<sigma> = "\<lambda>k. SPIMaster_run f k s"
  have z: "zero_inv s" using assms by (simp add: zero_inv_def)
  have inv: "zero_inv (?\<sigma> k)" "data_read (?\<sigma> k) = data_read s" for k
    using zero_inv_run [OF z assms(7), of k] by simp_all
  have nd: "\<not> spi_done (spi (?\<sigma> n))"
    using zero_inv_tick(2) [OF inv(1) [of n], of "f n"] assms(7) by simp
  have tr: "\<And>k. ?\<sigma> (Suc k) = SPIMaster_sync (f k) (?\<sigma> k)" by simp
  have quiet: "\<And>k. \<not> we (f k)" using assms(7) by simp
  have st: "spi_start s" using assms(1,3) by (simp add: spi_start_def spi_cs_def)
  note e0 = start_tick [of s "f 0", OF st assms(2) quiet]
  have s1: "fsm (spi (?\<sigma> (Suc 0))) = WAIT" "\<not> pending (?\<sigma> (Suc 0))"
    using e0 assms(1,4) by simp_all
  then have cs1: "spi_cs (spi (?\<sigma> (Suc 0)))" by (simp add: spi_cs_def)
  from wait_for_edge [of ?\<sigma> f, OF tr quiet cs1]
  obtain t1 where t1: "Suc 0 \<le> t1" "cg_edge (cg (spi (?\<sigma> t1)))"
    "\<forall>k. Suc 0 \<le> k \<and> k \<le> t1 \<longrightarrow> frame (?\<sigma> k) (?\<sigma> (Suc 0))"
    by blast
  have fr: "frame (?\<sigma> t1) (?\<sigma> (Suc 0))" using t1 by simp
  have s2: "fsm (spi (?\<sigma> t1)) = WAIT" "\<not> pending (?\<sigma> t1)"
    using fr s1 by (simp_all add: frame_def)
  have bd: "bits_done (bits (spi (?\<sigma> t1)))"
    using inv(1) [of t1] s2(1) by (simp add: zero_inv_def)
  note e1 = idle_wait_tick [of "?\<sigma> t1" "f t1", OF t1(2) s2(1) quiet s2(2) bd, folded tr]
  have rel: "\<not> spi_cs (spi (?\<sigma> (Suc t1)))" "\<not> pending (?\<sigma> (Suc t1))"
    using e1 by (simp_all add: spi_cs_def)
  have act: "spi_cs (spi (?\<sigma> k))" if "1 \<le> k" "k < Suc t1" for k
  proof -
    have "frame (?\<sigma> k) (?\<sigma> (Suc 0))" using t1(3) that by simp
    then show ?thesis using s1(1) by (simp add: frame_def spi_cs_def)
  qed
  have "2 \<le> Suc t1" using t1(1) by simp
  then have "\<exists>t\<ge>2. \<not> spi_cs (spi (?\<sigma> t)) \<and> \<not> pending (?\<sigma> t)
           \<and> (\<forall>k. 1 \<le> k \<and> k < t \<longrightarrow> spi_cs (spi (?\<sigma> k)))"
    using rel act by blast
  then show ?thesis using nd inv(2) [of n] by (intro conjI)
qed

theorem zero_length_phase1_witness:
  "\<not> spi_done (spi (SPIMaster_run (\<lambda>_. wb_idle) 5 st_zero))
    \<and> data_read (SPIMaster_run (\<lambda>_. wb_idle) 5 st_zero) = 0
    \<and> (\<exists>t\<ge>2. \<not> spi_cs (spi (SPIMaster_run (\<lambda>_. wb_idle) t st_zero))
           \<and> \<not> pending (SPIMaster_run (\<lambda>_. wb_idle) t st_zero)
           \<and> (\<forall>k. 1 \<le> k \<and> k < t \<longrightarrow> spi_cs (spi (SPIMaster_run (\<lambda>_. wb_idle) k st_zero))))"
proof -
  have h: "fsm (spi st_zero) = IDLE" "cg_edge (cg (spi st_zero))" "pending st_zero"
    "config_clk_phase (config st_zero)"
    "xfer_write_length (xfer st_zero) = 0" "xfer_read_length (xfer st_zero) = 0"
    by code_simp+
  have q: "\<forall>k. \<not> we ((\<lambda>_. wb_idle) k)" by (simp add: wb_idle_def)
  have r: "data_read st_zero = 0" by code_simp
  from zero_length_phase1 [OF h q, of 5] show ?thesis unfolding r .
qed

text \<open>
  C5 as stated fails: for the zero-length transfer \<open>st_zero\<close> with \<open>clk_phase\<close> set,
  \<open>done\<close> is low in cycles 0 to 3, chip-select is asserted in cycle 1 and released in
  cycle 2, and from cycle 3 on the state no longer changes: \<open>done\<close> does not pulse once,
  it never pulses.
\<close>

theorem zero_length_phase1_counterexample:
  "fsm (spi st_zero) = IDLE \<and> cg_edge (cg (spi st_zero)) \<and> pending st_zero
   \<and> config_clk_phase (config st_zero)
   \<and> xfer_write_length (xfer st_zero) = 0 \<and> xfer_read_length (xfer st_zero) = 0
   \<and> \<not> spi_done (spi (idle_run 0 st_zero))
   \<and> \<not> spi_done (spi (idle_run 1 st_zero)) \<and> spi_cs (spi (idle_run 1 st_zero))
   \<and> \<not> spi_done (spi (idle_run 2 st_zero)) \<and> \<not> spi_cs (spi (idle_run 2 st_zero))
   \<and> \<not> spi_done (spi (idle_run 3 st_zero))
   \<and> idle_run 4 st_zero = idle_run 3 st_zero"
  by code_simp

section \<open>Clock edges and chip-select\<close>














end
